theory Spec2Isabelle
  imports Main "HOL-Library.List_Lexorder" "HOL-Library.Char_ord"
begin

section \<open>Data model of \<^verbatim>\<open>railway_telegram_notifier.py\<close>\<close>

text \<open>
  Strings are byte lists (UTF-8); the emoji of the source's literals are written as
  their bytes.  A subscriber handle (\<^verbatim>\<open>chat_id\<close>) is a Python int (as Telegram delivers
  it) or a string (as a hand-edited users file may hold it).  Every comparison of
  handles in the source goes through \<^verbatim>\<open>str(...)\<close>, modelled by \<open>py_str\<close>.
\<close>

datatype handle = IntId int | StrId string

definition digit_char :: "nat \<Rightarrow> char" where
  "digit_char d = ''0123456789'' ! d"

fun dec_nat :: "nat \<Rightarrow> string" where
  "dec_nat n = (if n < 10 then [digit_char n]
                else dec_nat (n div 10) @ [digit_char (n mod 10)])"

declare dec_nat.simps [simp del]

definition str_int :: "int \<Rightarrow> string" where
  "str_int i = (if i < 0 then CHR ''-'' # dec_nat (nat (- i)) else dec_nat (nat i))"

fun py_str :: "handle \<Rightarrow> string" where
  "py_str (IntId i) = str_int i"
| "py_str (StrId s) = s"

record preference_set =
  price_alerts :: bool
  signal_alerts :: bool
  news_alerts :: bool
  eod_reports :: bool

record user =
  chat_id :: handle
  username :: "string option"
  registered_at :: string
  settings :: preference_set

text \<open>A Python exception.  \<open>KeyboardInterrupt\<close> is not an \<^verbatim>\<open>Exception\<close>; \<open>OSError\<close>,
  \<open>UnicodeDecodeError\<close> and \<open>JSONDecodeError\<close> are the classes \<^verbatim>\<open>load_users\<close> meets and tells
  apart; \<open>Exception c\<close> is an instance of any other class of \<^verbatim>\<open>Exception\<close>
  (\<^verbatim>\<open>ValueError\<close>, \<^verbatim>\<open>RecursionError\<close>, a transport error, ...) with \<^verbatim>\<open>str(e) = c\<close>.\<close>

datatype exn =
    Exception string
  | KeyboardInterrupt
  | OSError string
  | UnicodeDecodeError string
  | JSONDecodeError string

text \<open>What the program does to the outside world, in order.\<close>

datatype effect =
    WriteUsers "user list"
  | Reply string
  | SendMessage handle string
  | SendPhoto handle string "string option"
  | LogInfo string
  | LogError string
  | Sleep int
  | StartPolling
  | StopPolling
  | Exit nat

definition nl :: string where
  "nl = [CHR 0x0A]"

section \<open>Subscriber store\<close>

text \<open>The users file: absent, unreadable (\<^verbatim>\<open>open\<close> or \<^verbatim>\<open>read\<close> raises \<^verbatim>\<open>OSError\<close> with the
  given text), or present with the given bytes.\<close>

datatype users_file =
    Missing
  | Unreadable string
  | Content string

definition file_exists :: "users_file \<Rightarrow> bool" where
  "file_exists f = (f \<noteq> Missing)"

text \<open>What \<^verbatim>\<open>json.load\<close> returns: the registry \<^verbatim>\<open>{'users': [...]}\<close>, or any other JSON value
  (given by its \<^verbatim>\<open>repr\<close>), which \<^verbatim>\<open>load_users\<close> hands on as it is.\<close>

datatype loaded = Registry "user list" | Other string

text \<open>The file is opened in text mode, so \<^verbatim>\<open>f.read()\<close> decodes its bytes, as UTF-8 on the
  system the program is deployed to: a byte sequence that is not well-formed UTF-8
  (RFC 3629: no overlong forms, no surrogates, nothing above U+10FFFF) raises
  \<^verbatim>\<open>UnicodeDecodeError\<close>.  The text stays in its UTF-8 bytes; the exception's text, which
  names the byte and its position, is abridged.\<close>

definition in_range :: "nat \<Rightarrow> nat \<Rightarrow> char \<Rightarrow> bool" where
  "in_range lo hi c = (lo \<le> of_char c \<and> (of_char c :: nat) \<le> hi)"

fun utf8_valid :: "string \<Rightarrow> bool" where
  "utf8_valid [] = True"
| "utf8_valid (b # bs) =
     (if in_range 0x00 0x7F b then utf8_valid bs
      else if in_range 0xC2 0xDF b then
        (case bs of
           c1 # r \<Rightarrow> in_range 0x80 0xBF c1 \<and> utf8_valid r
         | _ \<Rightarrow> False)
      else if in_range 0xE0 0xEF b then
        (case bs of
           c1 # c2 # r \<Rightarrow>
             (if b = CHR 0xE0 then in_range 0xA0 0xBF c1
              else if b = CHR 0xED then in_range 0x80 0x9F c1
              else in_range 0x80 0xBF c1)
             \<and> in_range 0x80 0xBF c2 \<and> utf8_valid r
         | _ \<Rightarrow> False)
      else if in_range 0xF0 0xF4 b then
        (case bs of
           c1 # c2 # c3 # r \<Rightarrow>
             (if b = CHR 0xF0 then in_range 0x90 0xBF c1
              else if b = CHR 0xF4 then in_range 0x80 0x8F c1
              else in_range 0x80 0xBF c1)
             \<and> in_range 0x80 0xBF c2 \<and> in_range 0x80 0xBF c3 \<and> utf8_valid r
         | _ \<Rightarrow> False)
      else False)"

definition utf8_decode :: "string \<Rightarrow> exn + string" where
  "utf8_decode bs =
     (if utf8_valid bs then Inr bs
      else Inl (UnicodeDecodeError ''utf-8 codec can't decode byte''))"

text \<open>\<^verbatim>\<open>open(self.users_file, 'r')\<close> followed by \<^verbatim>\<open>json.load(f)\<close>.  The parser of the \<^verbatim>\<open>json\<close>
  library is the parameter \<open>loads\<close>, of which nothing is assumed: on a text it returns a
  value or raises (\<^verbatim>\<open>JSONDecodeError\<close> on text that is not JSON, but also
  \<^verbatim>\<open>RecursionError\<close> on deeply nested text or \<^verbatim>\<open>ValueError\<close> on an over-long integer).\<close>

definition json_load :: "(string \<Rightarrow> exn + loaded) \<Rightarrow> users_file \<Rightarrow> exn + loaded" where
  "json_load loads f =
     (case f of
        Missing \<Rightarrow> Inl (OSError ''No such file or directory'')
      | Unreadable c \<Rightarrow> Inl (OSError c)
      | Content bs \<Rightarrow>
          (case utf8_decode bs of
             Inl e \<Rightarrow> Inl e
           | Inr text \<Rightarrow> loads text))"

definition load_users ::
  "(string \<Rightarrow> exn + loaded) \<Rightarrow> users_file \<Rightarrow> exn + (loaded \<times> effect list)" where
  "load_users loads f =
     (if file_exists f then
        (case json_load loads f of
           Inr v \<Rightarrow> Inr (v, [])
         | Inl (JSONDecodeError c) \<Rightarrow>
             Inr (Registry [], [LogError ''Error decoding users file, creating new one''])
         | Inl e \<Rightarrow> Inl e)
      else Inr (Registry [], []))"

text \<open>\<open>wr\<close> is the outcome of writing the file: \<open>None\<close> when it succeeds, \<open>Some c\<close>
  when \<^verbatim>\<open>open\<close> or \<^verbatim>\<open>json.dump\<close> raises an exception whose text is \<open>c\<close>.\<close>

definition save_users :: "string option \<Rightarrow> user list \<Rightarrow> effect list" where
  "save_users wr us =
     (case wr of
        None \<Rightarrow> [WriteUsers us]
      | Some c \<Rightarrow> [LogError (''Error saving users file: '' @ c)])"

definition default_settings :: preference_set where
  "default_settings =
     \<lparr>price_alerts = True, signal_alerts = True, news_alerts = True, eod_reports = True\<rparr>"

text \<open>\<open>now\<close> is \<^verbatim>\<open>datetime.now().strftime('%Y-%m-%d %H:%M:%S')\<close>.\<close>

definition register_user ::
  "string option \<Rightarrow> string \<Rightarrow> user list \<Rightarrow> handle \<Rightarrow> string option
     \<Rightarrow> bool \<times> user list \<times> effect list" where
  "register_user wr now us cid uname =
     (if py_str cid \<notin> set (map (\<lambda>u. py_str (chat_id u)) us)
      then (let us' = us @ [\<lparr>chat_id = cid, username = uname, registered_at = now,
                              settings = default_settings\<rparr>]
            in (True, us', save_users wr us'))
      else (False, us, []))"

section \<open>Command surface\<close>

text \<open>The lookup loop of \<^verbatim>\<open>settings_command\<close> and \<^verbatim>\<open>handle_message\<close>: the position
  of the first record whose handle has the given string form.\<close>

fun find_user :: "user list \<Rightarrow> string \<Rightarrow> nat option" where
  "find_user [] cid = None"
| "find_user (u # us) cid =
     (if py_str (chat_id u) = cid then Some 0 else map_option Suc (find_user us cid))"

definition not_registered :: string where
  "not_registered = ''You are not registered. Use /start to register.''"

definition dont_understand :: string where
  "dont_understand = ''I don't understand that command. Use /help to see available commands.''"

definition on_off :: "bool \<Rightarrow> string" where
  "on_off b = (if b then [CHR 0xE2, CHR 0x9C, CHR 0x85] @ '' ON''
               else [CHR 0xE2, CHR 0x9D, CHR 0x8C] @ '' OFF'')"

definition settings_text :: "preference_set \<Rightarrow> string" where
  "settings_text s =
     [CHR 0xF0, CHR 0x9F, CHR 0x94, CHR 0xA7] @ '' Notification Settings:'' @ nl @ nl @
     ''Price Alerts: '' @ on_off (price_alerts s) @ nl @
     ''Signal Alerts: '' @ on_off (signal_alerts s) @ nl @
     ''News Alerts: '' @ on_off (news_alerts s) @ nl @
     ''EOD Reports: '' @ on_off (eod_reports s) @ nl @ nl @
     ''To change settings, reply with:'' @ nl @
     ''price on/off'' @ nl @
     ''signal on/off'' @ nl @
     ''news on/off'' @ nl @
     ''eod on/off''"

definition settings_command :: "user list \<Rightarrow> handle \<Rightarrow> user list \<times> effect list" where
  "settings_command us cid =
     (case find_user us (py_str cid) of
        None \<Rightarrow> (us, [Reply not_registered])
      | Some i \<Rightarrow> (us, [Reply (settings_text (settings (us ! i)))]))"

text \<open>\<^verbatim>\<open>str.lower\<close> on the ASCII letters; other bytes are left alone.  (The two
  code points outside ASCII that Python lowers to an ASCII letter give \<open>k\<close> and
  \<open>i\<close> followed by a combining mark, so no text outside ASCII lowers to one of the
  prefixes or to \<open>on\<close>.)\<close>

definition lower_char :: "char \<Rightarrow> char" where
  "lower_char c =
     (case map_of (zip ''ABCDEFGHIJKLMNOPQRSTUVWXYZ'' ''abcdefghijklmnopqrstuvwxyz'') c of
        None \<Rightarrow> c
      | Some d \<Rightarrow> d)"

definition lower :: "string \<Rightarrow> string" where
  "lower s = map lower_char s"

definition startswith :: "string \<Rightarrow> string \<Rightarrow> bool" where
  "startswith s p = (take (length p) s = p)"

text \<open>\<^verbatim>\<open>s.split(c)\<close> with an explicit separator: empty fields are kept.\<close>

fun split_on :: "char \<Rightarrow> string \<Rightarrow> string list" where
  "split_on c [] = [[]]"
| "split_on c (x # xs) =
     (if x = c then [] # split_on c xs
      else (case split_on c xs of
              [] \<Rightarrow> [[x]]
            | w # ws \<Rightarrow> (x # w) # ws))"

definition py_index :: "'a list \<Rightarrow> nat \<Rightarrow> exn + 'a" where
  "py_index xs i = (if i < length xs then Inr (xs ! i) else Inl (Exception ''list index out of range''))"

text \<open>\<^verbatim>\<open>text.split(' ')[1].lower() == 'on'\<close>\<close>

definition on_token :: "string \<Rightarrow> exn + bool" where
  "on_token text =
     (case py_index (split_on CHR '' '' text) 1 of
        Inl e \<Rightarrow> Inl e
      | Inr t \<Rightarrow> Inr (lower t = ''on''))"

definition turned :: "bool \<Rightarrow> string" where
  "turned v = (if v then ''ON'' else ''OFF'')"

text \<open>One branch of \<^verbatim>\<open>handle_message\<close>: the flag of the record found (the element of
  the list itself, which the source mutates in place) is written, the store saved and
  the change acknowledged.\<close>

definition change_setting ::
  "string option \<Rightarrow> user list \<Rightarrow> nat \<Rightarrow> (bool \<Rightarrow> preference_set \<Rightarrow> preference_set)
     \<Rightarrow> string \<Rightarrow> string \<Rightarrow> exn + (user list \<times> effect list)" where
  "change_setting wr us i upd label text =
     (case on_token text of
        Inl e \<Rightarrow> Inl e
      | Inr v \<Rightarrow>
          (let us' = us[i := (us ! i)\<lparr>settings := upd v (settings (us ! i))\<rparr>]
           in Inr (us', save_users wr us' @ [Reply (label @ '' turned '' @ turned v)])))"

definition handle_message ::
  "string option \<Rightarrow> user list \<Rightarrow> handle \<Rightarrow> string \<Rightarrow> exn + (user list \<times> effect list)" where
  "handle_message wr us cid txt =
     (let text = lower txt in
      case find_user us (py_str cid) of
        None \<Rightarrow> Inr (us, [Reply not_registered])
      | Some i \<Rightarrow>
          if startswith text ''price '' then
            change_setting wr us i (\<lambda>v s. s\<lparr>price_alerts := v\<rparr>) ''Price alerts'' text
          else if startswith text ''signal '' then
            change_setting wr us i (\<lambda>v s. s\<lparr>signal_alerts := v\<rparr>) ''Signal alerts'' text
          else if startswith text ''news '' then
            change_setting wr us i (\<lambda>v s. s\<lparr>news_alerts := v\<rparr>) ''News alerts'' text
          else if startswith text ''eod '' then
            change_setting wr us i (\<lambda>v s. s\<lparr>eod_reports := v\<rparr>) ''EOD reports'' text
          else Inr (us, [Reply dont_understand]))"

text \<open>The four prefixes \<^verbatim>\<open>handle_message\<close> tests, each with the flag its branch
  writes and the label of its reply (used to state properties of all four branches
  at once).\<close>

definition categories :: "(string \<times> (bool \<Rightarrow> preference_set \<Rightarrow> preference_set) \<times> string) list" where
  "categories =
     [(''price'', \<lambda>v s. s\<lparr>price_alerts := v\<rparr>, ''Price alerts''),
      (''signal'', \<lambda>v s. s\<lparr>signal_alerts := v\<rparr>, ''Signal alerts''),
      (''news'', \<lambda>v s. s\<lparr>news_alerts := v\<rparr>, ''News alerts''),
      (''eod'', \<lambda>v s. s\<lparr>eod_reports := v\<rparr>, ''EOD reports'')]"

section \<open>Routing and dispatch\<close>

text \<open>A notification as \<^verbatim>\<open>send_notification\<close> reads it: the keys \<^verbatim>\<open>type\<close>, \<^verbatim>\<open>title\<close>
  and \<^verbatim>\<open>message\<close>, and the optional \<^verbatim>\<open>data\<close> with its optional \<^verbatim>\<open>chart_path\<close> (an absent
  key and the value \<^verbatim>\<open>None\<close> are both \<open>None\<close>).\<close>

record notification =
  n_type :: string
  n_title :: string
  n_message :: string
  n_data :: "string option option"

text \<open>The bot and the file system as the dispatch loops meet them.  \<open>send_message tr h t\<close>
  is \<open>None\<close> when \<^verbatim>\<open>bot.send_message(chat_id=h, text=t)\<close> returns and \<open>Some c\<close> when it raises
  an \<^verbatim>\<open>Exception\<close> whose text is \<open>c\<close>; likewise \<open>send_photo\<close> (by handle and path of the
  photo) and \<open>open_rb\<close> (\<^verbatim>\<open>open(path, 'rb')\<close>); \<open>path_exists\<close> is \<^verbatim>\<open>os.path.exists\<close>.\<close>

record transport =
  send_message :: "handle \<Rightarrow> string \<Rightarrow> string option"
  send_photo :: "handle \<Rightarrow> string \<Rightarrow> string option"
  path_exists :: "string \<Rightarrow> bool"
  open_rb :: "string \<Rightarrow> string option"

text \<open>The selection loop of \<^verbatim>\<open>send_notification\<close>.\<close>

fun select_recipients :: "string \<Rightarrow> user list \<Rightarrow> user list" where
  "select_recipients t [] = []"
| "select_recipients t (u # us) =
     (if t = ''price'' \<and> price_alerts (settings u) then u # select_recipients t us
      else if t = ''signal'' \<and> signal_alerts (settings u) then u # select_recipients t us
      else if t = ''news'' \<and> news_alerts (settings u) then u # select_recipients t us
      else select_recipients t us)"

text \<open>Opening a photo and sending it: the effects performed and the exception raised,
  if any.\<close>

definition send_chart ::
  "transport \<Rightarrow> handle \<Rightarrow> string \<Rightarrow> string option \<Rightarrow> effect list \<times> string option" where
  "send_chart tr h p caption =
     (case open_rb tr p of
        Some c \<Rightarrow> ([], Some c)
      | None \<Rightarrow>
          (case send_photo tr h p of
             Some c \<Rightarrow> ([], Some c)
           | None \<Rightarrow> ([SendPhoto h p caption], None)))"

text \<open>The \<^verbatim>\<open>try\<close> block of \<^verbatim>\<open>send_notification\<close> for one recipient.\<close>

definition try_notify ::
  "transport \<Rightarrow> string \<Rightarrow> string option \<Rightarrow> user \<Rightarrow> effect list \<times> string option" where
  "try_notify tr full chart u =
     (case send_message tr (chat_id u) full of
        Some c \<Rightarrow> ([], Some c)
      | None \<Rightarrow>
          (case chart of
             None \<Rightarrow> ([SendMessage (chat_id u) full], None)
           | Some p \<Rightarrow>
               if path_exists tr p
               then (let (es, x) = send_chart tr (chat_id u) p None
                     in (SendMessage (chat_id u) full # es, x))
               else ([SendMessage (chat_id u) full], None)))"

text \<open>One round of a dispatch loop: the \<^verbatim>\<open>try\<close> block, and the \<^verbatim>\<open>except Exception\<close>
  clause that logs the recipient and the cause.\<close>

definition caught :: "string \<Rightarrow> user \<Rightarrow> effect list \<times> string option \<Rightarrow> effect list" where
  "caught what u r =
     (case snd r of
        None \<Rightarrow> fst r
      | Some c \<Rightarrow> fst r @ [LogError (what @ py_str (chat_id u) @ '': '' @ c)])"

definition notification_chart :: "notification \<Rightarrow> string option" where
  "notification_chart n = (case n_data n of None \<Rightarrow> None | Some d \<Rightarrow> d)"

definition full_message :: "notification \<Rightarrow> string" where
  "full_message n =
     [CHR 0xF0, CHR 0x9F, CHR 0x94, CHR 0x94] @ '' '' @ n_title n @ nl @ nl @ n_message n"

text \<open>The spec's \<open>DeliveryReport\<close>.  The source builds none: neither dispatch function
  has a \<^verbatim>\<open>return\<close> with a value, so both return \<^verbatim>\<open>None\<close>, the third component below.\<close>

record delivery_report =
  success_count :: nat
  failures :: "(handle \<times> string) list"

definition send_notification ::
  "transport \<Rightarrow> user list \<Rightarrow> notification
     \<Rightarrow> user list \<times> effect list \<times> delivery_report option" where
  "send_notification tr us n =
     (let recipients = select_recipients (n_type n) us
      in (us,
          concat (map (\<lambda>u. caught ''Error sending notification to '' u
                              (try_notify tr (full_message n) (notification_chart n) u))
                      recipients),
          None))"

text \<open>The report of \<^verbatim>\<open>notifier.generate_eod_report()\<close>, of which the source reads only
  the key \<^verbatim>\<open>chart_path\<close>.\<close>

record report_data =
  rd_chart_path :: "string option"

text \<open>The \<^verbatim>\<open>try\<close> block of \<^verbatim>\<open>send_eod_report\<close> for one recipient.\<close>

definition try_eod ::
  "transport \<Rightarrow> string \<Rightarrow> report_data \<Rightarrow> user \<Rightarrow> effect list \<times> string option" where
  "try_eod tr text rd u =
     (case send_message tr (chat_id u) text of
        Some c \<Rightarrow> ([], Some c)
      | None \<Rightarrow>
          (case rd_chart_path rd of
             None \<Rightarrow> ([SendMessage (chat_id u) text], None)
           | Some p \<Rightarrow>
               if path_exists tr p
               then (let (es, x) = send_chart tr (chat_id u) p (Some ''EOD Chart'')
                     in (SendMessage (chat_id u) text # es, x))
               else ([SendMessage (chat_id u) text], None)))"

text \<open>\<open>html\<close> is the outcome of \<^verbatim>\<open>reporter.generate_eod_report(report_data)\<close> and \<open>fmt\<close>
  that of \<^verbatim>\<open>notifier.format_eod_report_message(report_data)\<close>: \<open>Inl c\<close> when the call
  raises.  The result is the effects performed, the exception that leaves the function,
  if any, and the value returned.\<close>

definition send_eod_report ::
  "transport \<Rightarrow> string + string option \<Rightarrow> string + string \<Rightarrow> user list
     \<Rightarrow> report_data option \<Rightarrow> effect list \<times> string option \<times> delivery_report option" where
  "send_eod_report tr html fmt us report =
     (case report of
        None \<Rightarrow> ([LogError ''No report data to send''], None, None)
      | Some rd \<Rightarrow>
          (case html of
             Inl c \<Rightarrow> ([], Some c, None)
           | Inr None \<Rightarrow> ([LogError ''Failed to generate HTML report''], None, None)
           | Inr (Some report_path) \<Rightarrow>
               (case fmt of
                  Inl c \<Rightarrow> ([], Some c, None)
                | Inr report_message \<Rightarrow>
                    (let recipients = filter (\<lambda>u. eod_reports (settings u)) us
                     in (concat (map (\<lambda>u. caught ''Error sending EOD report to '' u
                                             (try_eod tr report_message rd u))
                                     recipients),
                         None, None)))))"

text \<open>The tally the spec asks of a dispatch, over the outcomes of the rounds.\<close>

definition tally :: "(user \<times> string option) list \<Rightarrow> delivery_report" where
  "tally rs =
     \<lparr>success_count = length (filter (\<lambda>r. snd r = None) rs),
      failures = concat (map (\<lambda>r. case snd r of None \<Rightarrow> [] | Some c \<Rightarrow> [(chat_id (fst r), c)]) rs)\<rparr>"

fun is_error :: "effect \<Rightarrow> bool" where
  "is_error (LogError m) = True"
| "is_error e = False"

section \<open>Scheduler loop\<close>

text \<open>What one pass of the monitoring loop meets: the store as the loop's thread sees it
  (commands change it from other threads), the bot and file system, the outcome of
  \<^verbatim>\<open>notifier.run_check_cycle()\<close>, the sample of \<^verbatim>\<open>datetime.now()\<close> as its \<^verbatim>\<open>%H:%M\<close> string
  and its date (the day number \<^verbatim>\<open>date.toordinal()\<close>, which has the equality and order of
  \<^verbatim>\<open>date\<close>), the outcomes of the three report producers, and whether a
  \<^verbatim>\<open>KeyboardInterrupt\<close> arrives during the sleep.  \<open>Inl c\<close> is a call that raises an
  \<^verbatim>\<open>Exception\<close> with text \<open>c\<close>.\<close>

record cycle_env =
  store :: "user list"
  bot_tr :: transport
  checks :: "string + notification list"
  now_hm :: string
  now_date :: nat
  eod_data :: "string + report_data option"
  html_report :: "string + string option"
  eod_message :: "string + string"
  interrupted :: bool

definition run_check_cycle :: "cycle_env \<Rightarrow> effect list" where
  "run_check_cycle ce =
     LogInfo ''Running check cycle...'' #
     (case checks ce of
        Inl c \<Rightarrow> [LogError (''Error in check cycle: '' @ c)]
      | Inr ns \<Rightarrow>
          if ns \<noteq> []
          then LogInfo (''Generated '' @ dec_nat (length ns) @ '' notifications'') #
               concat (map (\<lambda>n. fst (snd (send_notification (bot_tr ce) (store ce) n))) ns)
          else [LogInfo ''No notifications generated''])"

definition generate_and_send_eod_report :: "cycle_env \<Rightarrow> effect list" where
  "generate_and_send_eod_report ce =
     LogInfo ''Generating EOD report...'' #
     (case eod_data ce of
        Inl c \<Rightarrow> [LogError (''Error generating EOD report: '' @ c)]
      | Inr None \<Rightarrow> [LogError ''Failed to generate EOD report'']
      | Inr (Some rd) \<Rightarrow>
          LogInfo ''EOD report generated'' #
          (case send_eod_report (bot_tr ce) (html_report ce) (eod_message ce) (store ce) (Some rd) of
             (es, None, ret) \<Rightarrow> es
           | (es, Some c, ret) \<Rightarrow> es @ [LogError (''Error generating EOD report: '' @ c)]))"

text \<open>\<^verbatim>\<open>time.sleep(secs)\<close>: a negative length raises \<^verbatim>\<open>ValueError\<close> at once; otherwise the
  sleep completes or is cut short by \<^verbatim>\<open>KeyboardInterrupt\<close>.\<close>

definition py_sleep :: "int \<Rightarrow> bool \<Rightarrow> effect list \<times> exn option" where
  "py_sleep secs intr =
     (if secs < 0 then ([], Some (Exception ''sleep length must be non-negative''))
      else if intr then ([], Some KeyboardInterrupt)
      else ([Sleep secs], None))"

text \<open>One pass of the \<^verbatim>\<open>while True\<close> body of \<^verbatim>\<open>run_monitoring\<close>, from the watermark
  \<^verbatim>\<open>last_eod_report_date\<close>: the exception that leaves the body, if any, the watermark
  afterwards, whether the digest branch was taken, and the effects.\<close>

record cycle_result =
  c_raised :: "exn option"
  c_watermark :: "nat option"
  c_eod :: bool
  c_effects :: "effect list"

definition monitor_cycle :: "int \<Rightarrow> string \<Rightarrow> nat option \<Rightarrow> cycle_env \<Rightarrow> cycle_result" where
  "monitor_cycle check_interval eod_report_time last_eod_report_date ce =
     (let due = (now_hm ce \<ge> eod_report_time \<and> last_eod_report_date \<noteq> Some (now_date ce));
          z = py_sleep check_interval (interrupted ce)
      in \<lparr>c_raised = snd z,
          c_watermark = (if due then Some (now_date ce) else last_eod_report_date),
          c_eod = due,
          c_effects = run_check_cycle ce
                      @ (if due then generate_and_send_eod_report ce else [])
                      @ [LogInfo (''Sleeping for '' @ str_int check_interval @ '' seconds...'')]
                      @ fst z\<rparr>)"

datatype outcome = Pending | Returned | Raised exn

text \<open>The \<^verbatim>\<open>while True\<close> loop over the passes the environment supplies: it ends only by an
  exception; when the supplied passes are used up the loop is still running
  (\<open>Pending\<close>).  The result holds the passes not consumed and the result of each pass
  made.\<close>

fun monitor_loop ::
  "int \<Rightarrow> string \<Rightarrow> nat option \<Rightarrow> cycle_env list
     \<Rightarrow> outcome \<times> cycle_env list \<times> cycle_result list" where
  "monitor_loop ci thr wm [] = (Pending, [], [])"
| "monitor_loop ci thr wm (ce # ces) =
     (let r = monitor_cycle ci thr wm ce in
      case c_raised r of
        Some e \<Rightarrow> (Raised e, ces, [r])
      | None \<Rightarrow>
          (case monitor_loop ci thr (c_watermark r) ces of
             (out, rest, rs) \<Rightarrow> (out, rest, r # rs)))"

definition exn_text :: "exn \<Rightarrow> string" where
  "exn_text e =
     (case e of
        Exception c \<Rightarrow> c
      | KeyboardInterrupt \<Rightarrow> []
      | OSError c \<Rightarrow> c
      | UnicodeDecodeError c \<Rightarrow> c
      | JSONDecodeError c \<Rightarrow> c)"

definition stop_polling :: "effect list" where
  "stop_polling = [StopPolling, LogInfo ''Bot stopped polling'']"

text \<open>\<^verbatim>\<open>run_monitoring\<close>.  The first argument is the number of nested calls the
  interpreter's recursion limit still allows: with none left the call raises
  \<^verbatim>\<open>RecursionError\<close>.  \<open>starts\<close> holds the outcomes of the successive calls of
  \<^verbatim>\<open>start_polling\<close> (\<open>Some c\<close>: it raises).  \<^verbatim>\<open>start_polling\<close> is called before the
  \<^verbatim>\<open>try\<close>, so its exception leaves the function without the \<^verbatim>\<open>finally\<close>; an exception of
  the loop is caught, and the handler sleeps 60 seconds and calls \<^verbatim>\<open>run_monitoring\<close>
  again.\<close>

fun run_monitoring ::
  "nat \<Rightarrow> int \<Rightarrow> string \<Rightarrow> string option list \<Rightarrow> cycle_env list
     \<Rightarrow> outcome \<times> string option list \<times> cycle_env list \<times> effect list" where
  "run_monitoring 0 ci thr starts ces =
     (Raised (Exception ''maximum recursion depth exceeded''), starts, ces, [])"
| "run_monitoring (Suc depth) ci thr [] ces =
     (Pending, [], ces,
      [LogInfo (''Starting continuous monitoring every '' @ str_int ci @ '' seconds''),
       LogInfo (''EOD report time: '' @ thr)])"
| "run_monitoring (Suc depth) ci thr (Some c # starts) ces =
     (Raised (Exception c), starts, ces,
      [LogInfo (''Starting continuous monitoring every '' @ str_int ci @ '' seconds''),
       LogInfo (''EOD report time: '' @ thr)])"
| "run_monitoring (Suc depth) ci thr (None # starts) ces =
     (let begun = [LogInfo (''Starting continuous monitoring every '' @ str_int ci @ '' seconds''),
                   LogInfo (''EOD report time: '' @ thr),
                   StartPolling, LogInfo ''Bot started polling''] in
      case monitor_loop ci thr None ces of
        (Pending, rest, rs) \<Rightarrow> (Pending, starts, rest, begun @ concat (map c_effects rs))
      | (Returned, rest, rs) \<Rightarrow>
          (Returned, starts, rest, begun @ concat (map c_effects rs) @ stop_polling)
      | (Raised KeyboardInterrupt, rest, rs) \<Rightarrow>
          (Returned, starts, rest,
           begun @ concat (map c_effects rs) @ [LogInfo ''Monitoring stopped by user'']
           @ stop_polling)
      | (Raised e, rest, rs) \<Rightarrow>
          (let handler = [LogError (''Error in monitoring: '' @ exn_text e),
                          LogInfo ''Restarting monitoring in 60 seconds...'',
                          Sleep 60] in
           case run_monitoring depth ci thr starts rest of
             (Pending, starts', rest', es) \<Rightarrow>
               (Pending, starts', rest', begun @ concat (map c_effects rs) @ handler @ es)
           | (out, starts', rest', es) \<Rightarrow>
               (out, starts', rest',
                begun @ concat (map c_effects rs) @ handler @ es @ stop_polling)))"

definition max_retries :: nat where
  "max_retries = 5"

datatype proc_end = Exited nat | Finished | Running | Crashed exn

text \<open>The retry loop of \<^verbatim>\<open>main\<close>, from a value of \<^verbatim>\<open>retry_count\<close>: how the process ends
  (\<open>Running\<close> when the supplied environment is used up first), the final
  \<^verbatim>\<open>retry_count\<close>, and the effects.  A \<^verbatim>\<open>KeyboardInterrupt\<close> is not caught by
  \<^verbatim>\<open>except Exception\<close>.\<close>

function main_loop ::
  "nat \<Rightarrow> nat \<Rightarrow> int \<Rightarrow> string \<Rightarrow> string option list \<Rightarrow> cycle_env list
     \<Rightarrow> proc_end \<times> nat \<times> effect list" where
  "main_loop retry_count depth ci thr starts ces =
     (if retry_count < max_retries then
        (case run_monitoring depth ci thr starts ces of
           (Returned, starts', rest, es) \<Rightarrow> (Finished, retry_count, es)
         | (Pending, starts', rest, es) \<Rightarrow> (Running, retry_count, es)
         | (Raised KeyboardInterrupt, starts', rest, es) \<Rightarrow>
             (Crashed KeyboardInterrupt, retry_count, es)
         | (Raised e, starts', rest, es) \<Rightarrow>
             (let retry_count' = retry_count + 1;
                  logged = LogError (''Error in main loop (retry '' @ dec_nat retry_count' @ ''/''
                                     @ dec_nat max_retries @ ''): '' @ exn_text e) in
              if retry_count' < max_retries then
                (let sleep_time = 60 * int retry_count' in
                 case main_loop retry_count' depth ci thr starts' rest of
                   (out, n, es') \<Rightarrow>
                     (out, n,
                      es @ [logged,
                            LogInfo (''Restarting in '' @ str_int sleep_time @ '' seconds...''),
                            Sleep sleep_time] @ es'))
              else (Exited 1, retry_count',
                    es @ [logged, LogError ''Maximum retries reached, exiting'', Exit 1])))
      else (Finished, retry_count, []))"
  by pat_completeness auto
termination
  by (relation "measure (\<lambda>(retry_count, depth, ci, thr, starts, ces). max_retries - retry_count)")
     auto

declare main_loop.simps [simp del]

text \<open>\<^verbatim>\<open>main\<close>, after the construction of the notifier (which is not modelled): the
  token check, then the retry loop.\<close>

definition main ::
  "string option \<Rightarrow> nat \<Rightarrow> int \<Rightarrow> string \<Rightarrow> string option list \<Rightarrow> cycle_env list
     \<Rightarrow> proc_end \<times> nat \<times> effect list" where
  "main token depth ci thr starts ces =
     (if token = None \<or> token = Some []
      then (Exited 1, 0,
            [LogError ''TELEGRAM_BOT_TOKEN environment variable not set'', Exit 1])
      else main_loop 0 depth ci thr starts ces)"

text \<open>The effects that start, stop, delay or end the process.\<close>

fun lifecycle :: "effect \<Rightarrow> bool" where
  "lifecycle StartPolling = True"
| "lifecycle StopPolling = True"
| "lifecycle (Sleep n) = True"
| "lifecycle (Exit k) = True"
| "lifecycle e = False"

section \<open>Sample data\<close>

definition u7 :: "bool \<Rightarrow> user" where
  "u7 b = \<lparr>chat_id = IntId 7, username = None, registered_at = ''t'',
     settings = \<lparr>price_alerts = b, signal_alerts = True, news_alerts = True, eod_reports = True\<rparr>\<rparr>"

definition sub :: "int \<Rightarrow> user" where
  "sub i = \<lparr>chat_id = IntId i, username = None, registered_at = ''t'', settings = default_settings\<rparr>"

definition blocked_by :: "int \<Rightarrow> transport" where
  "blocked_by i =
     \<lparr>send_message = (\<lambda>h t. if h = IntId i then Some ''Forbidden: bot was blocked by the user'' else None),
      send_photo = (\<lambda>h p. None),
      path_exists = (\<lambda>p. False),
      open_rb = (\<lambda>p. None)\<rparr>"

definition price_note :: notification where
  "price_note = \<lparr>n_type = ''price'', n_title = ''Gold'', n_message = ''up'', n_data = None\<rparr>"

definition quiet_bot :: transport where
  "quiet_bot = \<lparr>send_message = (\<lambda>h t. None), send_photo = (\<lambda>h p. None),
                 path_exists = (\<lambda>p. False), open_rb = (\<lambda>p. None)\<rparr>"

definition pass :: "string \<Rightarrow> nat \<Rightarrow> string + report_data option \<Rightarrow> cycle_env" where
  "pass hm d rep =
     \<lparr>store = [sub 1], bot_tr = quiet_bot, checks = Inr [], now_hm = hm, now_date = d,
      eod_data = rep, html_report = Inr (Some ''/app/reports/eod.html''),
      eod_message = Inr ''EOD'', interrupted = False\<rparr>"

definition two_days :: "cycle_env list" where
  "two_days =
     [pass ''15:50'' 100 (Inr None), pass ''16:00'' 100 (Inr None),
      pass ''16:10'' 100 (Inr (Some \<lparr>rd_chart_path = None\<rparr>)),
      pass ''16:05'' 101 (Inr (Some \<lparr>rd_chart_path = None\<rparr>))]"

definition morning :: cycle_env where
  "morning =
     \<lparr>store = [], bot_tr = quiet_bot, checks = Inr [], now_hm = ''09:00'', now_date = 100,
      eod_data = Inr None, html_report = Inr None, eod_message = Inr [], interrupted = False\<rparr>"

section \<open>Properties\<close>

subsection \<open>Lookup and text helpers\<close>


lemma find_user_None_iff:
  "find_user us c = None \<longleftrightarrow> c \<notin> set (map (\<lambda>u. py_str (chat_id u)) us)"
  by (induction us) auto

lemma find_user_append_new:
  "c \<notin> set (map (\<lambda>u. py_str (chat_id u)) us) \<Longrightarrow> py_str (chat_id u) = c
     \<Longrightarrow> find_user (us @ [u]) c = Some (length us)"
  by (induction us) auto

lemma find_user_Some:
  "find_user us c = Some i \<Longrightarrow> i < length us \<and> py_str (chat_id (us ! i)) = c"
  by (induction us arbitrary: i) (auto split: if_splits)

lemma startswith_iff: "startswith s p \<longleftrightarrow> (\<exists>r. s = p @ r)"
  unfolding startswith_def
  by (metis append_eq_conv_conj append_take_drop_id)

lemma split_on_not_Nil: "split_on c s \<noteq> []"
  by (induction s) (auto split: list.splits)

lemma split_on_prefix:
  "c \<notin> set xs \<Longrightarrow> split_on c (xs @ c # ys) = xs # split_on c ys"
  by (induction xs) (auto split: list.splits)

lemma hd_split_on: "hd (split_on c s) = takeWhile (\<lambda>x. x \<noteq> c) s"
  by (induction s) (auto simp: split_on_not_Nil split: list.splits)

lemma lower_char_idem: "lower_char (lower_char c) = lower_char c"
  by (auto simp: lower_char_def split: if_splits)

lemma lower_idem: "lower (lower s) = lower s"
  by (simp add: lower_def lower_char_idem)

lemma on_token_prefix:
  "CHR '' '' \<notin> set cat \<Longrightarrow>
     on_token (cat @ CHR '' '' # rest) = Inr (lower (takeWhile (\<lambda>x. x \<noteq> CHR '' '') rest) = ''on'')"
proof -
  assume a: "CHR '' '' \<notin> set cat"
  obtain w ws where w: "split_on CHR '' '' rest = w # ws"
    using split_on_not_Nil[of "CHR '' ''" rest] by (cases "split_on CHR '' '' rest") auto
  have "w = takeWhile (\<lambda>x. x \<noteq> CHR '' '') rest"
    using hd_split_on[of "CHR '' ''" rest] w by simp
  then show ?thesis
    using a w by (simp add: on_token_def py_index_def split_on_prefix)
qed



text \<open>\<^bold>\<open>C4.\<close> For every handle \<open>h\<close> whose string form is not in the store,
  \<^verbatim>\<open>register_user\<close> returns true and appends exactly one record, for \<open>h\<close>, with the four
  flags true, and saves the store; registering \<open>h\<close> again returns false and changes
  nothing, so the store then holds exactly one record for \<open>h\<close>.\<close>

theorem register_user_idempotent:
  assumes "py_str h \<notin> set (map (\<lambda>u. py_str (chat_id u)) us)"
  shows "\<exists>r. register_user wr now us h nm = (True, us @ [r], save_users wr (us @ [r]))
           \<and> chat_id r = h
           \<and> price_alerts (settings r) \<and> signal_alerts (settings r)
           \<and> news_alerts (settings r) \<and> eod_reports (settings r)
           \<and> register_user wr' now' (us @ [r]) h nm' = (False, us @ [r], [])
           \<and> length (filter (\<lambda>u. py_str (chat_id u) = py_str h) (us @ [r])) = 1"
proof -
  let ?r = "\<lparr>chat_id = h, username = nm, registered_at = now, settings = default_settings\<rparr>"
  have none: "filter (\<lambda>u. py_str (chat_id u) = py_str h) us = []"
    using assms by (induction us) auto
  have "register_user wr now us h nm = (True, us @ [?r], save_users wr (us @ [?r]))"
    using assms by (simp add: register_user_def Let_def)
  moreover have "register_user wr' now' (us @ [?r]) h nm' = (False, us @ [?r], [])"
    by (simp add: register_user_def)
  moreover have "length (filter (\<lambda>u. py_str (chat_id u) = py_str h) (us @ [?r])) = 1"
    using none by simp
  ultimately show ?thesis
    by (intro exI[of _ ?r]) (simp add: default_settings_def)
qed

theorem register_user_idempotent_witness:
  "\<exists>r. register_user None ''2024-01-01 10:00:00'' [] (IntId 42) (Some ''ann'')
          = (True, [r], save_users None [r])
      \<and> chat_id r = IntId 42
      \<and> price_alerts (settings r) \<and> signal_alerts (settings r)
      \<and> news_alerts (settings r) \<and> eod_reports (settings r)
      \<and> register_user None ''2024-01-01 10:05:00'' [r] (IntId 42) (Some ''ann'') = (False, [r], [])
      \<and> length (filter (\<lambda>u. py_str (chat_id u) = py_str (IntId 42)) [r]) = 1"
  using register_user_idempotent [of "IntId 42" "[]" None "''2024-01-01 10:00:00''" "Some ''ann''"
      None "''2024-01-01 10:05:00''" "Some ''ann''"]
  by simp

text \<open>\<^bold>\<open>C10.\<close> Identity is the string form of the handle: once
  \<^verbatim>\<open>register_user(chat_id)\<close> has succeeded, registering \<^verbatim>\<open>str(chat_id)\<close> returns false and
  changes nothing, and the lookups of \<^verbatim>\<open>settings_command\<close> and \<^verbatim>\<open>handle_message\<close> find
  the record just created under either form, so both commands behave the same for
  both.\<close>

theorem handle_string_form_same_subscriber:
  assumes "fst (register_user wr now us h nm)"
  shows "let us' = fst (snd (register_user wr now us h nm)); s = StrId (py_str h) in
           \<not> fst (register_user wr' now' us' s nm')
         \<and> fst (snd (register_user wr' now' us' s nm')) = us'
         \<and> find_user us' (py_str h) = Some (length us)
         \<and> find_user us' (py_str s) = Some (length us)
         \<and> chat_id (us' ! length us) = h
         \<and> settings_command us' s = settings_command us' h
         \<and> handle_message wr' us' s txt = handle_message wr' us' h txt"
proof -
  let ?r = "\<lparr>chat_id = h, username = nm, registered_at = now, settings = default_settings\<rparr>"
  have new: "py_str h \<notin> set (map (\<lambda>u. py_str (chat_id u)) us)"
    using assms by (auto simp: register_user_def split: if_splits)
  then have reg: "register_user wr now us h nm = (True, us @ [?r], save_users wr (us @ [?r]))"
    by (simp add: register_user_def Let_def)
  have f: "find_user (us @ [?r]) (py_str h) = Some (length us)"
    using new by (simp add: find_user_append_new)
  have again: "register_user wr' now' (us @ [?r]) (StrId (py_str h)) nm' = (False, us @ [?r], [])"
    by (simp add: register_user_def)
  show ?thesis
    using f again by (simp add: reg Let_def settings_command_def handle_message_def)
qed

theorem handle_string_form_same_subscriber_witness:
  "fst (register_user None ''t'' [] (IntId 42) None) \<and>
   (let us' = fst (snd (register_user None ''t'' [] (IntId 42) None)); s = StrId ''42'' in
           \<not> fst (register_user None ''t2'' us' s None)
         \<and> fst (snd (register_user None ''t2'' us' s None)) = us'
         \<and> find_user us' ''42'' = Some 0
         \<and> chat_id (us' ! 0) = IntId 42
         \<and> settings_command us' s = settings_command us' (IntId 42)
         \<and> handle_message None us' s ''news off'' = handle_message None us' (IntId 42) ''news off'')"
proof -
  have s: "py_str (IntId 42) = ''42''"
    by (simp add: str_int_def dec_nat.simps digit_char_def)
  have r: "fst (register_user None ''t'' [] (IntId 42) None)"
    by (simp add: register_user_def Let_def)
  show ?thesis
    using r handle_string_form_same_subscriber [OF r, of None "''t2''" None "''news off''"]
    unfolding s by (simp add: Let_def)
qed

text \<open>\<^bold>\<open>C8.\<close> A free-text preference change or a \<^verbatim>\<open>/settings\<close> command from a
  handle that is not in the store is answered with the "not registered" reply, which
  points to \<^verbatim>\<open>/start\<close>, and the store is returned unchanged, with no write.\<close>

theorem unregistered_sender_rejected:
  assumes "py_str h \<notin> set (map (\<lambda>u. py_str (chat_id u)) us)"
  shows "handle_message wr us h txt
           = Inr (us, [Reply ''You are not registered. Use /start to register.''])
       \<and> settings_command us h
           = (us, [Reply ''You are not registered. Use /start to register.''])"
proof -
  have "find_user us (py_str h) = None"
    using assms by (simp add: find_user_None_iff)
  then show ?thesis
    by (simp add: handle_message_def settings_command_def not_registered_def)
qed

theorem unregistered_sender_rejected_witness:
  "handle_message None [\<lparr>chat_id = IntId 1, username = None, registered_at = ''t'',
                          settings = default_settings\<rparr>] (IntId 2) ''price off''
     = Inr ([\<lparr>chat_id = IntId 1, username = None, registered_at = ''t'',
              settings = default_settings\<rparr>],
            [Reply ''You are not registered. Use /start to register.''])
   \<and> settings_command [\<lparr>chat_id = IntId 1, username = None, registered_at = ''t'',
                          settings = default_settings\<rparr>] (IntId 2)
     = ([\<lparr>chat_id = IntId 1, username = None, registered_at = ''t'',
              settings = default_settings\<rparr>],
            [Reply ''You are not registered. Use /start to register.''])"
proof -
  have ne: "py_str (IntId 2) \<notin> set (map (\<lambda>u. py_str (chat_id u))
      [\<lparr>chat_id = IntId 1, username = None, registered_at = ''t'', settings = default_settings\<rparr>])"
    by (simp add: str_int_def dec_nat.simps digit_char_def)
  show ?thesis
    using unregistered_sender_rejected [OF ne, of None "''price off''"] by simp
qed

subsection \<open>Loading the store\<close>

lemma load_users_missing: "load_users loads Missing = Inr (Registry [], [])"
  by (simp add: load_users_def file_exists_def)

lemma load_users_not_json:
  "utf8_valid bs \<Longrightarrow> loads bs = Inl (JSONDecodeError c) \<Longrightarrow>
     load_users loads (Content bs)
       = Inr (Registry [], [LogError ''Error decoding users file, creating new one''])"
  by (simp add: load_users_def file_exists_def json_load_def utf8_decode_def)

lemma load_users_parsed:
  "utf8_valid bs \<Longrightarrow> loads bs = Inr v \<Longrightarrow> load_users loads (Content bs) = Inr (v, [])"
  by (simp add: load_users_def file_exists_def json_load_def utf8_decode_def)

lemma load_users_other_error:
  "utf8_valid bs \<Longrightarrow> loads bs = Inl e \<Longrightarrow> \<forall>c. e \<noteq> JSONDecodeError c \<Longrightarrow>
     load_users loads (Content bs) = Inl e"
  by (cases e) (simp_all add: load_users_def file_exists_def json_load_def utf8_decode_def)

lemma load_users_unreadable: "load_users loads (Unreadable c) = Inl (OSError c)"
  by (simp add: load_users_def file_exists_def json_load_def)

lemma utf8_valid_bell: "utf8_valid [CHR 0xF0, CHR 0x9F, CHR 0x94, CHR 0x94]"
  by (simp add: in_range_def)

lemma not_utf8_valid_FF: "\<not> utf8_valid [CHR 0xFF]"
  by (simp add: in_range_def)

text \<open>\<^bold>\<open>C7\<close> fails on the code.  A users file that holds the single byte \<open>0xFF\<close> is
  malformed, and whatever the JSON parser does, \<^verbatim>\<open>load_users\<close> neither logs nor returns
  the empty registry: the \<^verbatim>\<open>UnicodeDecodeError\<close> of reading the file is not a
  \<^verbatim>\<open>json.JSONDecodeError\<close> and leaves the function.\<close>

theorem load_users_undecodable_file_raises:
  "load_users loads (Content [CHR 0xFF]) = Inl (UnicodeDecodeError ''utf-8 codec can't decode byte'')"
  using not_utf8_valid_FF by (simp add: load_users_def file_exists_def json_load_def utf8_decode_def)

subsection \<open>Free-text preference changes\<close>

lemma startswith_excl:
  "startswith t ''price '' \<Longrightarrow> \<not> startswith t ''signal '' \<and> \<not> startswith t ''news '' \<and> \<not> startswith t ''eod ''"
  "startswith t ''signal '' \<Longrightarrow> \<not> startswith t ''price '' \<and> \<not> startswith t ''news '' \<and> \<not> startswith t ''eod ''"
  "startswith t ''news '' \<Longrightarrow> \<not> startswith t ''price '' \<and> \<not> startswith t ''signal '' \<and> \<not> startswith t ''eod ''"
  "startswith t ''eod '' \<Longrightarrow> \<not> startswith t ''price '' \<and> \<not> startswith t ''signal '' \<and> \<not> startswith t ''news ''"
  by (auto simp: startswith_iff)

lemma change_setting_prefix:
  assumes "CHR '' '' \<notin> set cat" "text = cat @ CHR '' '' # rest"
  shows "change_setting wr us i upd label text =
           (let v = (lower (takeWhile (\<lambda>x. x \<noteq> CHR '' '') rest) = ''on'');
                us' = us[i := (us ! i)\<lparr>settings := upd v (settings (us ! i))\<rparr>]
            in Inr (us', save_users wr us' @ [Reply (label @ '' turned '' @ turned v)]))"
  using assms by (simp add: change_setting_def on_token_prefix Let_def)

lemma handle_message_branches:
  assumes reg: "find_user us (py_str h) = Some i"
  shows "startswith (lower msg) ''price '' \<Longrightarrow> handle_message wr us h msg =
           change_setting wr us i (\<lambda>v s. s\<lparr>price_alerts := v\<rparr>) ''Price alerts'' (lower msg)"
    and "startswith (lower msg) ''signal '' \<Longrightarrow> handle_message wr us h msg =
           change_setting wr us i (\<lambda>v s. s\<lparr>signal_alerts := v\<rparr>) ''Signal alerts'' (lower msg)"
    and "startswith (lower msg) ''news '' \<Longrightarrow> handle_message wr us h msg =
           change_setting wr us i (\<lambda>v s. s\<lparr>news_alerts := v\<rparr>) ''News alerts'' (lower msg)"
    and "startswith (lower msg) ''eod '' \<Longrightarrow> handle_message wr us h msg =
           change_setting wr us i (\<lambda>v s. s\<lparr>eod_reports := v\<rparr>) ''EOD reports'' (lower msg)"
proof -
  show "startswith (lower msg) ''price '' \<Longrightarrow> handle_message wr us h msg =
           change_setting wr us i (\<lambda>v s. s\<lparr>price_alerts := v\<rparr>) ''Price alerts'' (lower msg)"
    using reg by (simp add: handle_message_def Let_def)
  show "startswith (lower msg) ''signal '' \<Longrightarrow> handle_message wr us h msg =
           change_setting wr us i (\<lambda>v s. s\<lparr>signal_alerts := v\<rparr>) ''Signal alerts'' (lower msg)"
    using reg startswith_excl(2)[of "lower msg"] by (simp add: handle_message_def Let_def)
  show "startswith (lower msg) ''news '' \<Longrightarrow> handle_message wr us h msg =
           change_setting wr us i (\<lambda>v s. s\<lparr>news_alerts := v\<rparr>) ''News alerts'' (lower msg)"
    using reg startswith_excl(3)[of "lower msg"] by (simp add: handle_message_def Let_def)
  show "startswith (lower msg) ''eod '' \<Longrightarrow> handle_message wr us h msg =
           change_setting wr us i (\<lambda>v s. s\<lparr>eod_reports := v\<rparr>) ''EOD reports'' (lower msg)"
    using reg startswith_excl(4)[of "lower msg"] by (simp add: handle_message_def Let_def)
qed

lemma handle_message_category:
  assumes reg: "find_user us (py_str h) = Some i"
    and cat: "(cat, upd, label) \<in> set categories"
    and low: "lower msg = cat @ CHR '' '' # rest"
  shows "handle_message wr us h msg =
           (let v = (lower (takeWhile (\<lambda>x. x \<noteq> CHR '' '') rest) = ''on'');
                us' = us[i := (us ! i)\<lparr>settings := upd v (settings (us ! i))\<rparr>]
            in Inr (us', save_users wr us' @ [Reply (label @ '' turned '' @ turned v)]))"
proof -
  have nosp: "CHR '' '' \<notin> set cat"
    using cat by (auto simp: categories_def)
  have sw: "startswith (lower msg) (cat @ '' '')"
    using low by (simp add: startswith_iff)
  have "handle_message wr us h msg = change_setting wr us i upd label (lower msg)"
    using cat sw handle_message_branches[OF reg, of msg wr]
    by (auto simp: categories_def)
  then show ?thesis
    using change_setting_prefix[OF nosp low] by simp
qed

lemma handle_message_other:
  assumes reg: "find_user us (py_str h) = Some i"
    and no: "\<forall>(cat, upd, label) \<in> set categories. \<not> startswith (lower msg) (cat @ '' '')"
  shows "handle_message wr us h msg = Inr (us, [Reply dont_understand])"
  using assms by (simp add: categories_def handle_message_def Let_def)

text \<open>\<^bold>\<open>C3\<close>, as the code has it.  For a registered sender: text that lower-cases to
  \<open>category\<close>, a space and \<open>on\<close> or \<open>off\<close> sets exactly that flag of the sender's record to
  that value, saves the store and acknowledges.  More generally, after a category
  prefix the flag is set to whether the token up to the next space is \<open>on\<close>, so every
  other token turns the flag off.  Text with none of the four prefixes gets the
  "don't understand" reply, and the store is returned unchanged with no write.\<close>

theorem handle_message_sets_flag:
  assumes "find_user us (py_str h) = Some i"
  shows "((cat, upd, label) \<in> set categories \<longrightarrow> tok \<in> {''on'', ''off''}
            \<longrightarrow> lower msg = cat @ '' '' @ tok \<longrightarrow>
          handle_message wr us h msg =
            (let us' = us[i := (us ! i)\<lparr>settings := upd (tok = ''on'') (settings (us ! i))\<rparr>]
             in Inr (us', save_users wr us' @ [Reply (label @ '' turned '' @ turned (tok = ''on''))])))
       \<and> ((cat, upd, label) \<in> set categories \<longrightarrow> lower msg = cat @ '' '' @ rest \<longrightarrow>
          handle_message wr us h msg =
            (let v = (lower (takeWhile (\<lambda>x. x \<noteq> CHR '' '') rest) = ''on'');
                 us' = us[i := (us ! i)\<lparr>settings := upd v (settings (us ! i))\<rparr>]
             in Inr (us', save_users wr us' @ [Reply (label @ '' turned '' @ turned v)])))
       \<and> ((\<forall>(c, u, l) \<in> set categories. \<not> startswith (lower msg) (c @ '' ''))
            \<longrightarrow> handle_message wr us h msg
                  = Inr (us, [Reply ''I don't understand that command. Use /help to see available commands.'']))"
proof (intro conjI impI)
  assume c: "(cat, upd, label) \<in> set categories" and t: "tok \<in> {''on'', ''off''}"
    and l: "lower msg = cat @ '' '' @ tok"
  have v: "(lower (takeWhile (\<lambda>x. x \<noteq> CHR '' '') tok) = ''on'') = (tok = ''on'')"
    using t by (auto simp: lower_def lower_char_def)
  show "handle_message wr us h msg =
            (let us' = us[i := (us ! i)\<lparr>settings := upd (tok = ''on'') (settings (us ! i))\<rparr>]
             in Inr (us', save_users wr us' @ [Reply (label @ '' turned '' @ turned (tok = ''on''))]))"
    using handle_message_category[OF assms c, of msg tok wr] l v by (simp add: Let_def)
next
  assume c: "(cat, upd, label) \<in> set categories" and l: "lower msg = cat @ '' '' @ rest"
  show "handle_message wr us h msg =
            (let v = (lower (takeWhile (\<lambda>x. x \<noteq> CHR '' '') rest) = ''on'');
                 us' = us[i := (us ! i)\<lparr>settings := upd v (settings (us ! i))\<rparr>]
             in Inr (us', save_users wr us' @ [Reply (label @ '' turned '' @ turned v)]))"
    using handle_message_category[OF assms c, of msg rest wr] l by simp
next
  assume "\<forall>(c, u, l) \<in> set categories. \<not> startswith (lower msg) (c @ '' '')"
  then show "handle_message wr us h msg
                  = Inr (us, [Reply ''I don't understand that command. Use /help to see available commands.''])"
    using handle_message_other[OF assms, of msg wr] by (simp add: dont_understand_def)
qed

lemma str7: "py_str (IntId 7) = ''7''"
  by (simp add: str_int_def dec_nat.simps digit_char_def)

text \<open>A malformed boolean token: \<^verbatim>\<open>price banana\<close> from a registered sender switches
  the price alerts off, saves, and is acknowledged; it is not rejected.\<close>

theorem handle_message_malformed_token_mutates:
  "handle_message None
      [\<lparr>chat_id = IntId 7, username = None, registered_at = ''t'',
         settings = \<lparr>price_alerts = True, signal_alerts = True, news_alerts = True,
                      eod_reports = True\<rparr>\<rparr>]
      (IntId 7) ''price banana''
   = Inr ([\<lparr>chat_id = IntId 7, username = None, registered_at = ''t'',
             settings = \<lparr>price_alerts = False, signal_alerts = True, news_alerts = True,
                          eod_reports = True\<rparr>\<rparr>],
          [WriteUsers [\<lparr>chat_id = IntId 7, username = None, registered_at = ''t'',
             settings = \<lparr>price_alerts = False, signal_alerts = True, news_alerts = True,
                          eod_reports = True\<rparr>\<rparr>],
           Reply ''Price alerts turned OFF''])"
  by (simp add: handle_message_def Let_def str_int_def dec_nat.simps digit_char_def
      lower_def lower_char_def startswith_def change_setting_def on_token_def py_index_def
      save_users_def turned_def)

theorem handle_message_sets_flag_witness:
  "find_user [u7 True] (py_str (IntId 7)) = Some 0
   \<and> handle_message None [u7 True] (IntId 7) ''Price OFF''
       = Inr ([u7 False], [WriteUsers [u7 False], Reply ''Price alerts turned OFF''])
   \<and> handle_message None [u7 False] (IntId 7) ''PRICE on''
       = Inr ([u7 True], [WriteUsers [u7 True], Reply ''Price alerts turned ON''])
   \<and> handle_message None [u7 True] (IntId 7) ''hello''
       = Inr ([u7 True], [Reply ''I don't understand that command. Use /help to see available commands.''])"
proof -
  have f: "find_user [u7 b] (py_str (IntId 7)) = Some 0" for b
    by (simp add: u7_def str7)
  have c: "(''price'', (\<lambda>v s. s\<lparr>price_alerts := v\<rparr>), ''Price alerts'') \<in> set categories"
    by (simp add: categories_def)
  have l1: "lower ''Price OFF'' = ''price'' @ '' '' @ ''off''"
    by (simp add: lower_def lower_char_def)
  have l2: "lower ''PRICE on'' = ''price'' @ '' '' @ ''on''"
    by (simp add: lower_def lower_char_def)
  have l3: "\<forall>(c, u, l) \<in> set categories. \<not> startswith (lower ''hello'') (c @ '' '')"
    by (simp add: categories_def lower_def lower_char_def startswith_def)
  have a: "handle_message None [u7 True] (IntId 7) ''Price OFF''
       = Inr ([u7 False], [WriteUsers [u7 False], Reply ''Price alerts turned OFF''])"
    using handle_message_sets_flag [OF f, where cat="''price''" and upd="\<lambda>v s. s\<lparr>price_alerts := v\<rparr>"
        and label="''Price alerts''" and b1=True and tok="''off''" and msg="''Price OFF''" and wr=None, THEN conjunct1] c l1
    by (simp add: u7_def save_users_def turned_def Let_def)
  have b: "handle_message None [u7 False] (IntId 7) ''PRICE on''
       = Inr ([u7 True], [WriteUsers [u7 True], Reply ''Price alerts turned ON''])"
    using handle_message_sets_flag [OF f, where cat="''price''" and upd="\<lambda>v s. s\<lparr>price_alerts := v\<rparr>"
        and label="''Price alerts''" and b1=False and tok="''on''" and msg="''PRICE on''" and wr=None, THEN conjunct1] c l2
    by (simp add: u7_def save_users_def turned_def Let_def)
  have d: "handle_message None [u7 True] (IntId 7) ''hello''
       = Inr ([u7 True], [Reply ''I don't understand that command. Use /help to see available commands.''])"
    using handle_message_sets_flag [OF f, where b1=True and msg="''hello''", THEN conjunct2, THEN conjunct2] l3
    by simp
  show ?thesis using f a b d by simp
qed

subsection \<open>Routing and dispatch\<close>

lemma select_recipients_eq_filter:
  "select_recipients t us =
     filter (\<lambda>u. t = ''price'' \<and> price_alerts (settings u)
               \<or> t = ''signal'' \<and> signal_alerts (settings u)
               \<or> t = ''news'' \<and> news_alerts (settings u)) us"
  by (induction us) auto

lemma send_chart_no_error: "filter is_error (fst (send_chart tr h p cap)) = []"
  by (simp add: send_chart_def split: option.splits)

lemma try_notify_no_error: "filter is_error (fst (try_notify tr full chart u)) = []"
  by (auto simp: try_notify_def send_chart_def split: option.splits prod.splits)

lemma try_eod_no_error: "filter is_error (fst (try_eod tr full rd u)) = []"
  by (auto simp: try_eod_def send_chart_def split: option.splits prod.splits)

lemma try_notify_sent:
  "snd (try_notify tr full chart u) = None \<Longrightarrow> SendMessage (chat_id u) full \<in> set (fst (try_notify tr full chart u))"
  by (auto simp: try_notify_def split: option.splits prod.splits if_splits)

lemma try_eod_sent:
  "snd (try_eod tr full rd u) = None \<Longrightarrow> SendMessage (chat_id u) full \<in> set (fst (try_eod tr full rd u))"
  by (auto simp: try_eod_def split: option.splits prod.splits if_splits)

lemma try_notify_no_write: "WriteUsers w \<notin> set (fst (try_notify tr full chart u))"
  by (auto simp: try_notify_def send_chart_def split: option.splits prod.splits if_splits)

lemma caught_no_write:
  "WriteUsers w \<notin> set (fst r) \<Longrightarrow> WriteUsers w \<notin> set (caught what u r)"
  by (auto simp: caught_def split: option.splits)

lemma rounds_all_ok:
  assumes "\<forall>v \<in> set vs. snd (f v) = None" "\<And>v. filter is_error (fst (f v)) = []"
  shows "filter is_error (concat (map (\<lambda>v. caught what v (f v)) vs)) = []"
  using assms(1) by (induction vs) (auto simp: caught_def assms(2))

lemma rounds_one_failure:
  assumes ok: "\<forall>v \<in> set pre \<union> set post. snd (f v) = None"
    and bad: "snd (f u) = Some c"
    and quiet: "\<And>v. filter is_error (fst (f v)) = []"
  shows "filter is_error (concat (map (\<lambda>v. caught what v (f v)) (pre @ u # post)))
           = [LogError (what @ py_str (chat_id u) @ '': '' @ c)]"
proof -
  have "filter is_error (concat (map (\<lambda>v. caught what v (f v)) pre)) = []"
    using ok quiet by (intro rounds_all_ok) auto
  moreover have "filter is_error (concat (map (\<lambda>v. caught what v (f v)) post)) = []"
    using ok quiet by (intro rounds_all_ok) auto
  moreover have "filter is_error (caught what u (f u)) = [LogError (what @ py_str (chat_id u) @ '': '' @ c)]"
    using bad quiet[of u] by (simp add: caught_def)
  ultimately show ?thesis by simp
qed

lemma rounds_delivered:
  assumes "v \<in> set vs" "snd (f v) = None" "e \<in> set (fst (f v))"
  shows "e \<in> set (concat (map (\<lambda>v. caught what v (f v)) vs))"
  using assms by (auto simp: caught_def intro!: bexI[of _ v])

lemma tally_all_ok:
  "\<forall>v \<in> set vs. g v = None \<Longrightarrow>
     success_count (tally (map (\<lambda>v. (v, g v)) vs)) = length vs
     \<and> failures (tally (map (\<lambda>v. (v, g v)) vs)) = []"
  by (induction vs) (auto simp: tally_def)

lemma tally_append:
  "success_count (tally (xs @ ys)) = success_count (tally xs) + success_count (tally ys)"
  "failures (tally (xs @ ys)) = failures (tally xs) @ failures (tally ys)"
  by (simp_all add: tally_def)

lemma tally_one_failure:
  assumes ok: "\<forall>v \<in> set pre \<union> set post. g v = None" and bad: "g u = Some c"
  shows "tally (map (\<lambda>v. (v, g v)) (pre @ u # post))
           = \<lparr>success_count = length pre + length post, failures = [(chat_id u, c)]\<rparr>"
proof -
  have p: "\<forall>v \<in> set pre. g v = None" and q: "\<forall>v \<in> set post. g v = None"
    using ok by auto
  have one: "success_count (tally [(u, g u)]) = 0" "failures (tally [(u, g u)]) = [(chat_id u, c)]"
    using bad by (simp_all add: tally_def)
  have split: "map (\<lambda>v. (v, g v)) (pre @ u # post)
                 = map (\<lambda>v. (v, g v)) pre @ [(u, g u)] @ map (\<lambda>v. (v, g v)) post"
    by simp
  have "success_count (tally (map (\<lambda>v. (v, g v)) (pre @ u # post))) = length pre + length post"
    unfolding split tally_append using tally_all_ok[OF p] tally_all_ok[OF q] one by simp
  moreover have "failures (tally (map (\<lambda>v. (v, g v)) (pre @ u # post))) = [(chat_id u, c)]"
    unfolding split tally_append using tally_all_ok[OF p] tally_all_ok[OF q] one by simp
  ultimately show ?thesis
    by (cases "tally (map (\<lambda>v. (v, g v)) (pre @ u # post))") simp
qed

text \<open>\<^bold>\<open>C5.\<close> For each of the categories \<open>price\<close>, \<open>signal\<close> and \<open>news\<close>, the selection loop
  of \<^verbatim>\<open>send_notification\<close> returns exactly the subscribers whose \<open>price_alerts\<close>,
  \<open>signal_alerts\<close> or \<open>news_alerts\<close> flag is true, in the order of the store; the store is
  returned as it was and nothing is written.\<close>

theorem select_recipients_routes:
  "select_recipients ''price'' us = filter (\<lambda>u. price_alerts (settings u)) us
   \<and> select_recipients ''signal'' us = filter (\<lambda>u. signal_alerts (settings u)) us
   \<and> select_recipients ''news'' us = filter (\<lambda>u. news_alerts (settings u)) us
   \<and> fst (send_notification tr us n) = us
   \<and> WriteUsers w \<notin> set (fst (snd (send_notification tr us n)))"
proof -
  have "WriteUsers w \<notin> set (fst (snd (send_notification tr us n)))"
    using caught_no_write[OF try_notify_no_write]
    by (auto simp: send_notification_def Let_def)
  then show ?thesis
    by (simp add: select_recipients_eq_filter send_notification_def Let_def)
qed

lemma send_notification_one_failure:
  assumes sel: "select_recipients (n_type n) us = pre @ u # post"
    and ok: "\<forall>v \<in> set pre \<union> set post.
               snd (try_notify tr (full_message n) (notification_chart n) v) = None"
    and bad: "snd (try_notify tr (full_message n) (notification_chart n) u) = Some c"
  shows "(let (us', effs, ret) = send_notification tr us n in
            ret = None \<and> us' = us
          \<and> filter is_error effs
              = [LogError (''Error sending notification to '' @ py_str (chat_id u) @ '': '' @ c)]
          \<and> (\<forall>v \<in> set pre \<union> set post. SendMessage (chat_id v) (full_message n) \<in> set effs)
          \<and> tally (map (\<lambda>v. (v, snd (try_notify tr (full_message n) (notification_chart n) v)))
                       (select_recipients (n_type n) us))
              = \<lparr>success_count = length pre + length post, failures = [(chat_id u, c)]\<rparr>)"
proof -
  let ?f = "try_notify tr (full_message n) (notification_chart n)"
  let ?effs = "concat (map (\<lambda>v. caught ''Error sending notification to '' v (?f v)) (pre @ u # post))"
  have e: "filter is_error ?effs
             = [LogError (''Error sending notification to '' @ py_str (chat_id u) @ '': '' @ c)]"
    using rounds_one_failure[of pre post ?f u c, OF ok bad try_notify_no_error] .
  have d: "SendMessage (chat_id v) (full_message n) \<in> set ?effs" if "v \<in> set pre \<union> set post" for v
  proof -
    have "snd (?f v) = None" using ok that by blast
    moreover have "v \<in> set (pre @ u # post)" using that by auto
    ultimately show ?thesis
      using rounds_delivered[of v "pre @ u # post" ?f] try_notify_sent[of tr "full_message n" "notification_chart n" v]
      by blast
  qed
  have t: "tally (map (\<lambda>v. (v, snd (?f v))) (pre @ u # post))
             = \<lparr>success_count = length pre + length post, failures = [(chat_id u, c)]\<rparr>"
    using tally_one_failure[of pre post "\<lambda>v. snd (?f v)" u c, OF ok bad] .
  show ?thesis
    using e d t by (simp add: send_notification_def Let_def sel)
qed

lemma send_eod_report_one_failure:
  assumes sel: "filter (\<lambda>u. eod_reports (settings u)) us = pre @ u # post"
    and ok: "\<forall>v \<in> set pre \<union> set post. snd (try_eod tr m rd v) = None"
    and bad: "snd (try_eod tr m rd u) = Some c"
  shows "(let (effs, ex, ret) = send_eod_report tr (Inr (Some path)) (Inr m) us (Some rd) in
            ret = None \<and> ex = None
          \<and> filter is_error effs
              = [LogError (''Error sending EOD report to '' @ py_str (chat_id u) @ '': '' @ c)]
          \<and> (\<forall>v \<in> set pre \<union> set post. SendMessage (chat_id v) m \<in> set effs)
          \<and> tally (map (\<lambda>v. (v, snd (try_eod tr m rd v)))
                       (filter (\<lambda>u. eod_reports (settings u)) us))
              = \<lparr>success_count = length pre + length post, failures = [(chat_id u, c)]\<rparr>)"
proof -
  let ?f = "try_eod tr m rd"
  let ?effs = "concat (map (\<lambda>v. caught ''Error sending EOD report to '' v (?f v)) (pre @ u # post))"
  have e: "filter is_error ?effs
             = [LogError (''Error sending EOD report to '' @ py_str (chat_id u) @ '': '' @ c)]"
    using rounds_one_failure[of pre post ?f u c, OF ok bad try_eod_no_error] .
  have d: "SendMessage (chat_id v) m \<in> set ?effs" if "v \<in> set pre \<union> set post" for v
  proof -
    have "snd (?f v) = None" using ok that by blast
    moreover have "v \<in> set (pre @ u # post)" using that by auto
    ultimately show ?thesis
      using rounds_delivered[of v "pre @ u # post" ?f] try_eod_sent[of tr m rd v]
      by blast
  qed
  have t: "tally (map (\<lambda>v. (v, snd (?f v))) (pre @ u # post))
             = \<lparr>success_count = length pre + length post, failures = [(chat_id u, c)]\<rparr>"
    using tally_one_failure[of pre post "\<lambda>v. snd (?f v)" u c, OF ok bad] .
  show ?thesis
    using e d t by (simp add: send_eod_report_def Let_def sel)
qed

text \<open>\<^bold>\<open>C2\<close>, as the code has it.  Let the recipients be \<open>pre @ u # post\<close>
  (\<open>N = length pre + 1 + length post\<close>), let the round of \<open>u\<close> raise with cause \<open>c\<close> and
  every other round complete.  Then \<^verbatim>\<open>send_notification\<close> and \<^verbatim>\<open>send_eod_report\<close> log
  exactly one error, naming \<open>u\<close> and \<open>c\<close>; the message is sent to each of the other
  \<open>N - 1\<close> recipients; tallying the rounds gives \<open>N - 1\<close> successes and the one failure
  \<open>(u, c)\<close>; and the functions return \<^verbatim>\<open>None\<close>, not a report.\<close>

theorem dispatch_isolates_failure:
  "(select_recipients (n_type n) us = pre @ u # post
     \<longrightarrow> (\<forall>v \<in> set pre \<union> set post.
            snd (try_notify tr (full_message n) (notification_chart n) v) = None)
     \<longrightarrow> snd (try_notify tr (full_message n) (notification_chart n) u) = Some c
     \<longrightarrow> (let (us', effs, ret) = send_notification tr us n in
            ret = None \<and> us' = us
          \<and> filter is_error effs
              = [LogError (''Error sending notification to '' @ py_str (chat_id u) @ '': '' @ c)]
          \<and> (\<forall>v \<in> set pre \<union> set post. SendMessage (chat_id v) (full_message n) \<in> set effs)
          \<and> tally (map (\<lambda>v. (v, snd (try_notify tr (full_message n) (notification_chart n) v)))
                       (select_recipients (n_type n) us))
              = \<lparr>success_count = length pre + length post, failures = [(chat_id u, c)]\<rparr>))
 \<and> (filter (\<lambda>u. eod_reports (settings u)) us = pre @ u # post
     \<longrightarrow> (\<forall>v \<in> set pre \<union> set post. snd (try_eod tr m rd v) = None)
     \<longrightarrow> snd (try_eod tr m rd u) = Some c
     \<longrightarrow> (let (effs, ex, ret) = send_eod_report tr (Inr (Some path)) (Inr m) us (Some rd) in
            ret = None \<and> ex = None
          \<and> filter is_error effs
              = [LogError (''Error sending EOD report to '' @ py_str (chat_id u) @ '': '' @ c)]
          \<and> (\<forall>v \<in> set pre \<union> set post. SendMessage (chat_id v) m \<in> set effs)
          \<and> tally (map (\<lambda>v. (v, snd (try_eod tr m rd v)))
                       (filter (\<lambda>u. eod_reports (settings u)) us))
              = \<lparr>success_count = length pre + length post, failures = [(chat_id u, c)]\<rparr>))"
  using send_notification_one_failure[of n us pre u post tr c]
    send_eod_report_one_failure[of us pre u post tr m rd c path]
  by blast

lemma str_small: "str_int 1 = ''1''" "str_int 2 = ''2''" "str_int 3 = ''3''"
  by (simp_all add: str_int_def dec_nat.simps digit_char_def)

text \<open>Three recipients, the second of which has blocked the bot: both dispatch
  functions return \<^verbatim>\<open>None\<close>, so no \<open>DeliveryReport\<close> reaches the caller.\<close>

theorem dispatch_returns_no_report:
  "select_recipients (n_type price_note) [sub 1, sub 2, sub 3] = [sub 1, sub 2, sub 3]
   \<and> map (\<lambda>v. snd (try_notify (blocked_by 2) (full_message price_note) (notification_chart price_note) v))
        [sub 1, sub 2, sub 3]
      = [None, Some ''Forbidden: bot was blocked by the user'', None]
   \<and> snd (snd (send_notification (blocked_by 2) [sub 1, sub 2, sub 3] price_note)) = None
   \<and> snd (snd (send_eod_report (blocked_by 2) (Inr (Some ''/app/reports/eod.html'')) (Inr ''EOD'')
                 [sub 1, sub 2, sub 3] (Some \<lparr>rd_chart_path = None\<rparr>))) = None"
  by (simp add: send_notification_def send_eod_report_def Let_def price_note_def sub_def
      default_settings_def blocked_by_def try_notify_def notification_chart_def)

theorem dispatch_isolates_failure_witness:
  "select_recipients (n_type price_note) [sub 1, sub 2, sub 3] = [sub 1] @ sub 2 # [sub 3]
   \<and> send_notification (blocked_by 2) [sub 1, sub 2, sub 3] price_note
       = ([sub 1, sub 2, sub 3],
          [SendMessage (IntId 1) (full_message price_note),
           LogError ''Error sending notification to 2: Forbidden: bot was blocked by the user'',
           SendMessage (IntId 3) (full_message price_note)],
          None)
   \<and> filter is_error (fst (snd (send_notification (blocked_by 2) [sub 1, sub 2, sub 3] price_note)))
       = [LogError ''Error sending notification to 2: Forbidden: bot was blocked by the user'']
   \<and> tally (map (\<lambda>v. (v, snd (try_notify (blocked_by 2) (full_message price_note)
                                   (notification_chart price_note) v)))
               (select_recipients (n_type price_note) [sub 1, sub 2, sub 3]))
       = \<lparr>success_count = 2, failures = [(IntId 2, ''Forbidden: bot was blocked by the user'')]\<rparr>
   \<and> filter (\<lambda>u. eod_reports (settings u)) [sub 1, sub 2, sub 3] = [sub 1] @ sub 2 # [sub 3]
   \<and> filter is_error (fst (send_eod_report (blocked_by 2) (Inr (Some ''/app/reports/eod.html''))
                               (Inr ''EOD'') [sub 1, sub 2, sub 3] (Some \<lparr>rd_chart_path = None\<rparr>)))
       = [LogError ''Error sending EOD report to 2: Forbidden: bot was blocked by the user'']"
proof -
  have sel: "select_recipients (n_type price_note) [sub 1, sub 2, sub 3] = [sub 1] @ sub 2 # [sub 3]"
    by (simp add: price_note_def sub_def default_settings_def)
  have ok: "\<forall>v \<in> set [sub 1] \<union> set [sub 3].
      snd (try_notify (blocked_by 2) (full_message price_note) (notification_chart price_note) v) = None"
    by (simp add: try_notify_def blocked_by_def sub_def notification_chart_def price_note_def)
  have bad: "snd (try_notify (blocked_by 2) (full_message price_note) (notification_chart price_note) (sub 2))
      = Some ''Forbidden: bot was blocked by the user''"
    by (simp add: try_notify_def blocked_by_def sub_def)
  have all: "send_notification (blocked_by 2) [sub 1, sub 2, sub 3] price_note
       = ([sub 1, sub 2, sub 3],
          [SendMessage (IntId 1) (full_message price_note),
           LogError ''Error sending notification to 2: Forbidden: bot was blocked by the user'',
           SendMessage (IntId 3) (full_message price_note)],
          None)"
    by (simp add: send_notification_def Let_def sel caught_def try_notify_def blocked_by_def
        sub_def default_settings_def notification_chart_def price_note_def str_small)
  have sel': "filter (\<lambda>u. eod_reports (settings u)) [sub 1, sub 2, sub 3] = [sub 1] @ sub 2 # [sub 3]"
    by (simp add: sub_def default_settings_def)
  have ok': "\<forall>v \<in> set [sub 1] \<union> set [sub 3].
      snd (try_eod (blocked_by 2) ''EOD'' \<lparr>rd_chart_path = None\<rparr> v) = None"
    by (simp add: try_eod_def blocked_by_def sub_def)
  have bad': "snd (try_eod (blocked_by 2) ''EOD'' \<lparr>rd_chart_path = None\<rparr> (sub 2))
      = Some ''Forbidden: bot was blocked by the user''"
    by (simp add: try_eod_def blocked_by_def sub_def)
  have eod: "filter is_error (fst (send_eod_report (blocked_by 2) (Inr (Some ''/app/reports/eod.html''))
                               (Inr ''EOD'') [sub 1, sub 2, sub 3] (Some \<lparr>rd_chart_path = None\<rparr>)))
       = [LogError ''Error sending EOD report to 2: Forbidden: bot was blocked by the user'']"
    using dispatch_isolates_failure [where path="''/app/reports/eod.html''",
        THEN conjunct2, THEN mp, OF sel', THEN mp, OF ok', THEN mp, OF bad']
    by (simp add: case_prod_beta sub_def str_small)
  show ?thesis
    using dispatch_isolates_failure [THEN conjunct1, THEN mp, OF sel, THEN mp, OF ok, THEN mp, OF bad] sel all
      sel' eod
    by (simp add: sub_def str_small)
qed

subsection \<open>The monitoring loop and the daily digest\<close>

lemma monitor_loop_Cons_Suc:
  assumes "monitor_loop ci thr wm (ce # ces) = (out, rest, rs)" "Suc k < length rs"
  obtains rs' where "c_raised (monitor_cycle ci thr wm ce) = None"
    "monitor_loop ci thr (c_watermark (monitor_cycle ci thr wm ce)) ces = (out, rest, rs')"
    "rs = monitor_cycle ci thr wm ce # rs'"
  using assms by (auto simp: Let_def split: option.splits prod.splits)

lemma monitor_loop_hd:
  assumes "monitor_loop ci thr wm (ce # ces) = (out, rest, rs)"
  shows "rs \<noteq> [] \<and> rs ! 0 = monitor_cycle ci thr wm ce"
  using assms by (auto simp: Let_def split: option.splits prod.splits)

lemma monitor_loop_length:
  "monitor_loop ci thr wm ces = (out, rest, rs) \<Longrightarrow> length rs \<le> length ces"
proof (induction ces arbitrary: wm out rest rs)
  case Nil
  then show ?case by simp
next
  case (Cons ce ces)
  then show ?case
    by (auto simp: Let_def split: option.splits prod.splits)
qed

lemma monitor_loop_nth:
  "monitor_loop ci thr wm ces = (out, rest, rs) \<Longrightarrow> i < length rs
     \<Longrightarrow> \<exists>wm'. rs ! i = monitor_cycle ci thr wm' (ces ! i)"
proof (induction ces arbitrary: wm out rest rs i)
  case Nil
  then show ?case by simp
next
  case (Cons ce ces)
  show ?case
  proof (cases i)
    case 0
    then show ?thesis using monitor_loop_hd[OF Cons.prems(1)] by auto
  next
    case (Suc k)
    then obtain rs' where r: "monitor_loop ci thr (c_watermark (monitor_cycle ci thr wm ce)) ces = (out, rest, rs')"
        "rs = monitor_cycle ci thr wm ce # rs'"
      using monitor_loop_Cons_Suc[OF Cons.prems(1)] Cons.prems(2) by metis
    then have "k < length rs'" using Cons.prems(2) Suc by simp
    from Cons.IH[OF r(1) this] show ?thesis using r(2) Suc by simp
  qed
qed

lemma monitor_cycle_eod:
  "c_eod (monitor_cycle ci thr wm ce) = (thr \<le> now_hm ce \<and> wm \<noteq> Some (now_date ce))"
  "c_watermark (monitor_cycle ci thr wm ce)
     = (if thr \<le> now_hm ce \<and> wm \<noteq> Some (now_date ce) then Some (now_date ce) else wm)"
  by (simp_all add: monitor_cycle_def Let_def)

lemma monitor_loop_eod:
  "monitor_loop ci thr wm ces = (out, rest, rs) \<Longrightarrow> i < length rs
     \<Longrightarrow> sorted (map now_date ces)
     \<Longrightarrow> (\<And>d ce. wm = Some d \<Longrightarrow> ce \<in> set ces \<Longrightarrow> d \<le> now_date ce)
     \<Longrightarrow> c_eod (rs ! i) \<longleftrightarrow>
           thr \<le> now_hm (ces ! i) \<and> wm \<noteq> Some (now_date (ces ! i))
           \<and> (\<forall>ce \<in> set (take i ces). now_date ce = now_date (ces ! i) \<longrightarrow> \<not> thr \<le> now_hm ce)"
proof (induction ces arbitrary: wm out rest rs i)
  case Nil
  then show ?case by simp
next
  case (Cons ce ces)
  let ?r = "monitor_cycle ci thr wm ce"
  show ?case
  proof (cases i)
    case 0
    then show ?thesis
      using monitor_loop_hd[OF Cons.prems(1)] by (simp add: monitor_cycle_eod)
  next
    case (Suc k)
    then obtain rs' where r: "monitor_loop ci thr (c_watermark ?r) ces = (out, rest, rs')"
        "rs = ?r # rs'"
      using monitor_loop_Cons_Suc[OF Cons.prems(1)] Cons.prems(2) by metis
    have k: "k < length rs'" using Cons.prems(2) Suc r(2) by simp
    then have kc: "k < length ces" using monitor_loop_length[OF r(1)] by simp
    have srt: "sorted (map now_date ces)" and le0: "\<forall>x \<in> set ces. now_date ce \<le> now_date x"
      using Cons.prems(3) by auto
    have in_k: "ces ! k \<in> set ces" using kc by simp
    have wm': "d \<le> now_date x" if "c_watermark ?r = Some d" "x \<in> set ces" for d x
      using that le0 Cons.prems(4)[of d x] by (auto simp: monitor_cycle_eod split: if_splits)
    have ih: "c_eod (rs' ! k) \<longleftrightarrow>
           thr \<le> now_hm (ces ! k) \<and> c_watermark ?r \<noteq> Some (now_date (ces ! k))
           \<and> (\<forall>x \<in> set (take k ces). now_date x = now_date (ces ! k) \<longrightarrow> \<not> thr \<le> now_hm x)"
      using Cons.IH[OF r(1) k srt wm'] by blast
    have key: "c_watermark ?r \<noteq> Some (now_date (ces ! k)) \<longleftrightarrow>
                 wm \<noteq> Some (now_date (ces ! k))
                 \<and> (now_date ce = now_date (ces ! k) \<longrightarrow> \<not> thr \<le> now_hm ce)"
    proof (cases "thr \<le> now_hm ce \<and> wm \<noteq> Some (now_date ce)")
      case True
      have "wm \<noteq> Some (now_date (ces ! k))" if "now_date ce \<noteq> now_date (ces ! k)"
      proof
        assume "wm = Some (now_date (ces ! k))"
        then have "now_date (ces ! k) \<le> now_date ce"
          using Cons.prems(4)[of "now_date (ces ! k)" ce] by simp
        moreover have "now_date ce \<le> now_date (ces ! k)" using le0 in_k by blast
        ultimately show False using that by simp
      qed
      then show ?thesis using True by (auto simp: monitor_cycle_eod)
    next
      case False
      then show ?thesis by (auto simp: monitor_cycle_eod)
    qed
    show ?thesis
      using ih key by (simp add: Suc r(2))
  qed
qed

text \<open>\<^bold>\<open>C6.\<close> In one run of the monitoring loop (which starts with no watermark), over
  passes whose dates do not go backwards, the digest branch is taken in pass \<open>i\<close> exactly
  when the \<^verbatim>\<open>%H:%M\<close> string of that pass is at or after the threshold in the lexicographic
  order and no earlier pass of the same date was: the first such pass of each date
  triggers the digest, a later pass of that date does not, and the first such pass of
  the next date does again.  The effects of a pass hold the digest's exactly when the
  branch is taken.\<close>

theorem eod_digest_once_per_date:
  assumes "monitor_loop ci thr None ces = (out, rest, rs)"
    and "sorted (map now_date ces)"
    and "i < length rs"
  shows "(c_eod (rs ! i) \<longleftrightarrow>
            thr \<le> now_hm (ces ! i)
            \<and> (\<forall>j<i. now_date (ces ! j) = now_date (ces ! i) \<longrightarrow> \<not> thr \<le> now_hm (ces ! j)))
       \<and> c_effects (rs ! i)
           = run_check_cycle (ces ! i)
             @ (if c_eod (rs ! i) then generate_and_send_eod_report (ces ! i) else [])
             @ [LogInfo (''Sleeping for '' @ str_int ci @ '' seconds...'')]
             @ fst (py_sleep ci (interrupted (ces ! i)))"
proof -
  have i: "i < length ces"
    using monitor_loop_length[OF assms(1)] assms(3) by simp
  have "(\<forall>ce \<in> set (take i ces). now_date ce = now_date (ces ! i) \<longrightarrow> \<not> thr \<le> now_hm ce)
          \<longleftrightarrow> (\<forall>j<i. now_date (ces ! j) = now_date (ces ! i) \<longrightarrow> \<not> thr \<le> now_hm (ces ! j))"
  proof -
    have "set (take i ces) = (!) ces ` {0..<i}"
      using nth_image[of i ces] i by simp
    then show ?thesis by auto
  qed
  then have a: "c_eod (rs ! i) \<longleftrightarrow>
            thr \<le> now_hm (ces ! i)
            \<and> (\<forall>j<i. now_date (ces ! j) = now_date (ces ! i) \<longrightarrow> \<not> thr \<le> now_hm (ces ! j))"
    using monitor_loop_eod[OF assms(1) assms(3) assms(2)] by simp
  obtain wm' where "rs ! i = monitor_cycle ci thr wm' (ces ! i)"
    using monitor_loop_nth[OF assms(1) assms(3)] by blast
  then have b: "c_effects (rs ! i)
           = run_check_cycle (ces ! i)
             @ (if c_eod (rs ! i) then generate_and_send_eod_report (ces ! i) else [])
             @ [LogInfo (''Sleeping for '' @ str_int ci @ '' seconds...'')]
             @ fst (py_sleep ci (interrupted (ces ! i)))"
    by (simp add: monitor_cycle_def Let_def)
  show ?thesis using a b by blast
qed

lemma two_days_loop:
  "monitor_loop 600 ''16:00'' None two_days
     = (Pending, [],
        [monitor_cycle 600 ''16:00'' None (pass ''15:50'' 100 (Inr None)),
         monitor_cycle 600 ''16:00'' None (pass ''16:00'' 100 (Inr None)),
         monitor_cycle 600 ''16:00'' (Some 100)
           (pass ''16:10'' 100 (Inr (Some \<lparr>rd_chart_path = None\<rparr>))),
         monitor_cycle 600 ''16:00'' (Some 100)
           (pass ''16:05'' 101 (Inr (Some \<lparr>rd_chart_path = None\<rparr>)))])"
proof -
  have c: "c_raised (monitor_cycle 600 ''16:00'' wm (pass hm d rep)) = None" for wm hm d rep
    by (simp add: monitor_cycle_def py_sleep_def pass_def Let_def)
  have w: "c_watermark (monitor_cycle 600 ''16:00'' None (pass ''15:50'' 100 rep)) = None"
          "c_watermark (monitor_cycle 600 ''16:00'' None (pass ''16:00'' 100 rep)) = Some 100"
          "c_watermark (monitor_cycle 600 ''16:00'' (Some 100) (pass ''16:10'' 100 rep)) = Some 100"
    for rep
    by (simp_all add: monitor_cycle_eod pass_def)
  show ?thesis
    by (simp add: two_days_def Let_def c w)
qed

lemma two_days_eod:
  "\<not> c_eod (monitor_cycle 600 ''16:00'' None (pass ''15:50'' 100 rep))"
  "c_eod (monitor_cycle 600 ''16:00'' None (pass ''16:00'' 100 rep))"
  "\<not> c_eod (monitor_cycle 600 ''16:00'' (Some 100) (pass ''16:10'' 100 rep))"
  "c_eod (monitor_cycle 600 ''16:00'' (Some 100) (pass ''16:05'' 101 rep))"
  by (simp_all add: monitor_cycle_eod pass_def)

theorem eod_digest_once_per_date_witness:
  "sorted (map now_date two_days)
   \<and> 2 < length (snd (snd (monitor_loop 600 ''16:00'' None two_days)))
   \<and> map c_eod (snd (snd (monitor_loop 600 ''16:00'' None two_days))) = [False, True, False, True]
   \<and> ((c_eod (snd (snd (monitor_loop 600 ''16:00'' None two_days)) ! 2) \<longleftrightarrow>
          ''16:00'' \<le> now_hm (two_days ! 2)
          \<and> (\<forall>j<2. now_date (two_days ! j) = now_date (two_days ! 2)
                     \<longrightarrow> \<not> ''16:00'' \<le> now_hm (two_days ! j)))
       \<and> c_effects (snd (snd (monitor_loop 600 ''16:00'' None two_days)) ! 2)
           = run_check_cycle (two_days ! 2)
             @ (if c_eod (snd (snd (monitor_loop 600 ''16:00'' None two_days)) ! 2)
                then generate_and_send_eod_report (two_days ! 2) else [])
             @ [LogInfo (''Sleeping for '' @ str_int 600 @ '' seconds...'')]
             @ fst (py_sleep 600 (interrupted (two_days ! 2))))"
proof -
  have s: "sorted (map now_date two_days)"
    by (simp add: two_days_def pass_def)
  have m: "monitor_loop 600 ''16:00'' None two_days
             = (fst (monitor_loop 600 ''16:00'' None two_days),
                fst (snd (monitor_loop 600 ''16:00'' None two_days)),
                snd (snd (monitor_loop 600 ''16:00'' None two_days)))"
    by simp
  have i: "2 < length (snd (snd (monitor_loop 600 ''16:00'' None two_days)))"
    by (simp add: two_days_loop)
  have e: "map c_eod (snd (snd (monitor_loop 600 ''16:00'' None two_days))) = [False, True, False, True]"
    by (simp add: two_days_loop two_days_eod)
  note t = eod_digest_once_per_date [OF m s i]
  show ?thesis
    using conjI[OF s conjI[OF i conjI[OF e t]]] .
qed

lemma monitor_loop_no_second_eod:
  assumes "monitor_loop ci thr None ces = (out, rest, rs)"
    and "sorted (map now_date ces)"
    and "i < j" "j < length rs"
    and "thr \<le> now_hm (ces ! i)"
    and "now_date (ces ! j) = now_date (ces ! i)"
  shows "\<not> c_eod (rs ! j)"
proof -
  have j: "j < length ces"
    using monitor_loop_length[OF assms(1)] assms(4) by simp
  have "ces ! i \<in> set (take j ces)"
    using assms(3) j by (auto simp: in_set_conv_nth intro!: exI[of _ i])
  then show ?thesis
    using monitor_loop_eod[OF assms(1) assms(4) assms(2)] assms(5,6) by auto
qed

text \<open>\<^bold>\<open>C9.\<close> When a pass is at or after the threshold on a date other than the
  watermark, the watermark becomes that date whatever the report producer does: when
  the producer raises or returns no data, \<^verbatim>\<open>generate_and_send_eod_report\<close> only logs
  the failure and returns, the pass raises nothing on that account, and a later pass
  of the same date does not take the digest branch, in the next pass and anywhere
  later in the run.\<close>

theorem failed_digest_consumes_date:
  "(thr \<le> now_hm ce \<longrightarrow> wm \<noteq> Some (now_date ce) \<longrightarrow>
      c_eod (monitor_cycle ci thr wm ce)
    \<and> c_watermark (monitor_cycle ci thr wm ce) = Some (now_date ce)
    \<and> c_raised (monitor_cycle ci thr wm ce) = snd (py_sleep ci (interrupted ce))
    \<and> (eod_data ce = Inl c \<longrightarrow>
          generate_and_send_eod_report ce
            = [LogInfo ''Generating EOD report...'',
               LogError (''Error generating EOD report: '' @ c)])
    \<and> (eod_data ce = Inr None \<longrightarrow>
          generate_and_send_eod_report ce
            = [LogInfo ''Generating EOD report...'',
               LogError ''Failed to generate EOD report''])
    \<and> (now_date ce' = now_date ce \<longrightarrow>
          \<not> c_eod (monitor_cycle ci thr (c_watermark (monitor_cycle ci thr wm ce)) ce')))
 \<and> (monitor_loop ci thr None ces = (out, rest, rs) \<longrightarrow> sorted (map now_date ces)
      \<longrightarrow> i < j \<longrightarrow> j < length rs \<longrightarrow> c_eod (rs ! i)
      \<longrightarrow> now_date (ces ! j) = now_date (ces ! i)
      \<longrightarrow> c_watermark (rs ! i) = Some (now_date (ces ! i)) \<and> \<not> c_eod (rs ! j))"
proof (intro conjI impI)
  assume "monitor_loop ci thr None ces = (out, rest, rs)" "sorted (map now_date ces)"
    "i < j" "j < length rs" "c_eod (rs ! i)" "now_date (ces ! j) = now_date (ces ! i)"
  note a = this
  have i: "i < length rs" using a(3,4) by simp
  obtain wm' where r: "rs ! i = monitor_cycle ci thr wm' (ces ! i)"
    using monitor_loop_nth[OF a(1) i] by blast
  then have due: "thr \<le> now_hm (ces ! i) \<and> wm' \<noteq> Some (now_date (ces ! i))"
    using a(5) by (simp add: monitor_cycle_eod)
  then show "c_watermark (rs ! i) = Some (now_date (ces ! i))"
    using r by (simp add: monitor_cycle_eod)
  show "\<not> c_eod (rs ! j)"
    using monitor_loop_no_second_eod[OF a(1,2,3,4) _ a(6)] due by blast
qed (simp_all add: monitor_cycle_eod monitor_cycle_def Let_def generate_and_send_eod_report_def)

theorem failed_digest_consumes_date_witness:
  "''16:00'' \<le> now_hm (pass ''16:00'' 100 (Inl ''boom''))
   \<and> c_watermark (monitor_cycle 600 ''16:00'' None (pass ''16:00'' 100 (Inl ''boom''))) = Some 100
   \<and> generate_and_send_eod_report (pass ''16:00'' 100 (Inl ''boom''))
       = [LogInfo ''Generating EOD report...'', LogError ''Error generating EOD report: boom'']
   \<and> \<not> c_eod (monitor_cycle 600 ''16:00''
               (c_watermark (monitor_cycle 600 ''16:00'' None (pass ''16:00'' 100 (Inl ''boom''))))
               (pass ''16:10'' 100 (Inr (Some \<lparr>rd_chart_path = None\<rparr>))))
   \<and> sorted (map now_date two_days)
   \<and> c_eod (snd (snd (monitor_loop 600 ''16:00'' None two_days)) ! 1)
   \<and> eod_data (two_days ! 1) = Inr None
   \<and> now_date (two_days ! 2) = now_date (two_days ! 1)
   \<and> c_watermark (snd (snd (monitor_loop 600 ''16:00'' None two_days)) ! 1) = Some 100
   \<and> \<not> c_eod (snd (snd (monitor_loop 600 ''16:00'' None two_days)) ! 2)"
proof -
  let ?ce = "pass ''16:00'' 100 (Inl ''boom'')"
  let ?ce' = "pass ''16:10'' 100 (Inr (Some \<lparr>rd_chart_path = None\<rparr>))"
  have h1: "''16:00'' \<le> now_hm ?ce"
    by (simp add: pass_def)
  have h2: "None \<noteq> Some (now_date ?ce)"
    by simp
  note t1 = failed_digest_consumes_date [where c="''boom''" and ce'="?ce'" and ci=600,
      THEN conjunct1, THEN mp, OF h1, THEN mp, OF h2]
  have d: "eod_data ?ce = Inl ''boom''" "now_date ?ce' = now_date ?ce" "now_date ?ce = 100"
    by (simp_all add: pass_def)
  have a: "c_watermark (monitor_cycle 600 ''16:00'' None ?ce) = Some 100"
    using t1 d(3) by simp
  have b: "generate_and_send_eod_report ?ce
       = [LogInfo ''Generating EOD report...'', LogError ''Error generating EOD report: boom'']"
    using t1 d(1) by simp
  have c: "\<not> c_eod (monitor_cycle 600 ''16:00'' (c_watermark (monitor_cycle 600 ''16:00'' None ?ce)) ?ce')"
    using t1 d(2) by blast
  have s: "sorted (map now_date two_days)"
    by (simp add: two_days_def pass_def)
  have m: "monitor_loop 600 ''16:00'' None two_days
             = (fst (monitor_loop 600 ''16:00'' None two_days),
                fst (snd (monitor_loop 600 ''16:00'' None two_days)),
                snd (snd (monitor_loop 600 ''16:00'' None two_days)))"
    by simp
  have ij: "(1::nat) < 2" by simp
  have jl: "2 < length (snd (snd (monitor_loop 600 ''16:00'' None two_days)))"
    by (simp add: two_days_loop)
  have fired: "c_eod (snd (snd (monitor_loop 600 ''16:00'' None two_days)) ! 1)"
    by (simp add: two_days_loop two_days_eod)
  have same: "now_date (two_days ! 2) = now_date (two_days ! 1)"
    by (simp add: two_days_def pass_def)
  have nodata: "eod_data (two_days ! 1) = Inr None"
    by (simp add: two_days_def pass_def)
  have day: "now_date (two_days ! 1) = 100"
    by (simp add: two_days_def pass_def)
  note t2 = failed_digest_consumes_date [THEN conjunct2, THEN mp, OF m, THEN mp, OF s,
      THEN mp, OF ij, THEN mp, OF jl, THEN mp, OF fired, THEN mp, OF same]
  have e: "c_watermark (snd (snd (monitor_loop 600 ''16:00'' None two_days)) ! 1) = Some 100"
    using t2 day by simp
  have f: "\<not> c_eod (snd (snd (monitor_loop 600 ''16:00'' None two_days)) ! 2)"
    using t2 by blast
  show ?thesis
    using h1 a b c s fired nodata same e f by blast
qed

subsection \<open>Restarts and the retry budget\<close>

lemma filter_concat_map_Nil:
  "(\<And>x. filter P (f x) = []) \<Longrightarrow> filter P (concat (map f xs)) = []"
  by (induction xs) auto

lemma send_chart_quiet: "filter lifecycle (fst (send_chart tr h p cap)) = []"
  by (simp add: send_chart_def split: option.splits)

lemma try_notify_quiet: "filter lifecycle (fst (try_notify tr full chart u)) = []"
  by (auto simp: try_notify_def send_chart_def split: option.splits prod.splits)

lemma try_eod_quiet: "filter lifecycle (fst (try_eod tr full rd u)) = []"
  by (auto simp: try_eod_def send_chart_def split: option.splits prod.splits)

lemma caught_quiet:
  "filter lifecycle (fst r) = [] \<Longrightarrow> filter lifecycle (caught what u r) = []"
  by (simp add: caught_def split: option.splits)

lemma send_notification_quiet:
  "filter lifecycle (fst (snd (send_notification tr us n))) = []"
  by (simp add: send_notification_def Let_def filter_concat_map_Nil caught_quiet try_notify_quiet)

lemma send_eod_report_quiet:
  "filter lifecycle (fst (send_eod_report tr html fmt us rep)) = []"
  by (simp add: send_eod_report_def Let_def filter_concat_map_Nil caught_quiet try_eod_quiet
      split: option.splits sum.splits)

lemma run_check_cycle_quiet: "filter lifecycle (run_check_cycle ce) = []"
  by (simp add: run_check_cycle_def filter_concat_map_Nil send_notification_quiet
      split: sum.splits)

lemma send_eod_report_quiet':
  "send_eod_report tr html fmt us rep = (es, x, ret) \<Longrightarrow> filter lifecycle es = []"
  using send_eod_report_quiet[of tr html fmt us rep] by simp

lemma generate_and_send_eod_report_quiet:
  "filter lifecycle (generate_and_send_eod_report ce) = []"
  by (auto simp: generate_and_send_eod_report_def
      split: sum.splits option.splits prod.splits dest: send_eod_report_quiet')

lemma monitor_cycle_negative_interval:
  assumes "ci < 0"
  shows "c_raised (monitor_cycle ci thr wm ce) = Some (Exception ''sleep length must be non-negative'')"
    and "filter lifecycle (c_effects (monitor_cycle ci thr wm ce)) = []"
  using assms
  by (simp_all add: monitor_cycle_def py_sleep_def Let_def run_check_cycle_quiet
      generate_and_send_eod_report_quiet)

lemma monitor_loop_negative_interval:
  assumes "ci < 0"
  shows "monitor_loop ci thr wm (ce # ces)
           = (Raised (Exception ''sleep length must be non-negative''), ces,
              [monitor_cycle ci thr wm ce])"
  using monitor_cycle_negative_interval(1)[OF assms] by (simp add: Let_def)

lemma run_monitoring_restarts:
  "ci < 0 \<Longrightarrow> length ces = m \<Longrightarrow> m < depth \<Longrightarrow>
     \<exists>es. run_monitoring depth ci thr (replicate m None) ces = (Pending, [], [], es)
        \<and> filter lifecycle es = concat (replicate m [StartPolling, Sleep 60])"
proof (induction m arbitrary: ces depth)
  case 0
  then obtain d where "depth = Suc d" by (cases depth) auto
  then show ?case using 0 by simp
next
  case (Suc m)
  obtain d where d: "depth = Suc d" "m < d"
    using Suc.prems(3) by (cases depth) auto
  obtain ce ces' where c: "ces = ce # ces'" "length ces' = m"
    using Suc.prems(2) by (cases ces) auto
  obtain es where es: "run_monitoring d ci thr (replicate m None) ces' = (Pending, [], [], es)"
      "filter lifecycle es = concat (replicate m [StartPolling, Sleep 60])"
    using Suc.IH[OF Suc.prems(1) c(2) d(2)] by blast
  show ?case
    unfolding d(1) c(1)
    by (simp add: Let_def monitor_loop_negative_interval[OF Suc.prems(1)] es
        monitor_cycle_negative_interval(2)[OF Suc.prems(1)] del: monitor_loop.simps)
qed

lemma main_loop_done:
  "\<not> rc < max_retries \<Longrightarrow> main_loop rc d ci thr starts ces = (Finished, rc, [])"
  by (subst main_loop.simps) simp

lemma main_loop_returned:
  "rc < max_retries \<Longrightarrow> run_monitoring d ci thr starts ces = (Returned, s1, r1, e1)
     \<Longrightarrow> main_loop rc d ci thr starts ces = (Finished, rc, e1)"
  by (subst main_loop.simps) simp

lemma main_loop_pending:
  "rc < max_retries \<Longrightarrow> run_monitoring d ci thr starts ces = (Pending, s1, r1, e1)
     \<Longrightarrow> main_loop rc d ci thr starts ces = (Running, rc, e1)"
  by (subst main_loop.simps) simp

lemma main_loop_interrupt:
  "rc < max_retries \<Longrightarrow> run_monitoring d ci thr starts ces = (Raised KeyboardInterrupt, s1, r1, e1)
     \<Longrightarrow> main_loop rc d ci thr starts ces = (Crashed KeyboardInterrupt, rc, e1)"
  by (subst main_loop.simps) simp

lemma main_loop_exit:
  "rc < max_retries \<Longrightarrow> run_monitoring d ci thr starts ces = (Raised e, s1, r1, e1)
     \<Longrightarrow> e \<noteq> KeyboardInterrupt \<Longrightarrow> \<not> rc + 1 < max_retries
     \<Longrightarrow> main_loop rc d ci thr starts ces
           = (Exited 1, rc + 1,
              e1 @ [LogError (''Error in main loop (retry '' @ dec_nat (rc + 1) @ ''/''
                              @ dec_nat max_retries @ ''): '' @ exn_text e),
                    LogError ''Maximum retries reached, exiting'', Exit 1])"
  by (subst main_loop.simps) (simp add: Let_def split: exn.splits)

lemma main_loop_retry:
  "rc < max_retries \<Longrightarrow> run_monitoring d ci thr starts ces = (Raised e, s1, r1, e1)
     \<Longrightarrow> e \<noteq> KeyboardInterrupt \<Longrightarrow> rc + 1 < max_retries
     \<Longrightarrow> main_loop (rc + 1) d ci thr s1 r1 = (o2, n2, e2)
     \<Longrightarrow> main_loop rc d ci thr starts ces
           = (o2, n2,
              e1 @ [LogError (''Error in main loop (retry '' @ dec_nat (rc + 1) @ ''/''
                              @ dec_nat max_retries @ ''): '' @ exn_text e),
                    LogInfo (''Restarting in '' @ str_int (60 * int (rc + 1)) @ '' seconds...''),
                    Sleep (60 * int (rc + 1))] @ e2)"
  by (subst main_loop.simps) (simp add: Let_def split: exn.splits)

lemma main_loop_budget:
  "main_loop rc d ci thr starts ces = (out, n, es) \<Longrightarrow> rc \<le> max_retries \<Longrightarrow>
     rc \<le> n \<and> n \<le> max_retries
     \<and> (\<forall>k. out = Exited k \<longrightarrow> k = 1 \<and> n = max_retries)
     \<and> (n = max_retries \<and> rc < max_retries \<longrightarrow> out = Exited 1)"
proof (induction "max_retries - rc" arbitrary: rc starts ces out n es)
  case 0
  then have "\<not> rc < max_retries" by simp
  then show ?case
    using main_loop_done[of rc d ci thr starts ces] "0.prems" by simp
next
  case (Suc k)
  have lt: "rc < max_retries" using Suc.hyps(2) by simp
  obtain o1 s1 r1 e1 where run: "run_monitoring d ci thr starts ces = (o1, s1, r1, e1)"
    by (cases "run_monitoring d ci thr starts ces") auto
  show ?case
  proof (cases o1)
    case Pending
    then show ?thesis
      using main_loop_pending[OF lt run[unfolded Pending]] Suc.prems lt by simp
  next
    case Returned
    then show ?thesis
      using main_loop_returned[OF lt run[unfolded Returned]] Suc.prems lt by simp
  next
    case (Raised e)
    show ?thesis
    proof (cases "e = KeyboardInterrupt")
      case True
      then show ?thesis
        using main_loop_interrupt[OF lt run[unfolded Raised True]] Suc.prems lt by simp
    next
      case ne: False
      show ?thesis
      proof (cases "rc + 1 < max_retries")
        case False
        then show ?thesis
          using main_loop_exit[OF lt run[unfolded Raised] ne False] Suc.prems lt by simp
      next
        case lt': True
        obtain o2 n2 e2 where rec: "main_loop (rc + 1) d ci thr s1 r1 = (o2, n2, e2)"
          by (cases "main_loop (rc + 1) d ci thr s1 r1") auto
        have k: "k = max_retries - (rc + 1)" using Suc.hyps(2) by simp
        have le: "rc + 1 \<le> max_retries" using lt' by simp
        have ih: "rc + 1 \<le> n2 \<and> n2 \<le> max_retries
                   \<and> (\<forall>k. o2 = Exited k \<longrightarrow> k = 1 \<and> n2 = max_retries)
                   \<and> (n2 = max_retries \<and> rc + 1 < max_retries \<longrightarrow> o2 = Exited 1)"
          using Suc.hyps(1)[OF k rec le] .
        have "(out, n, es) = (o2, n2,
              e1 @ [LogError (''Error in main loop (retry '' @ dec_nat (rc + 1) @ ''/''
                              @ dec_nat max_retries @ ''): '' @ exn_text e),
                    LogInfo (''Restarting in '' @ str_int (60 * int (rc + 1)) @ '' seconds...''),
                    Sleep (60 * int (rc + 1))] @ e2)"
          using trans[OF Suc.prems(1)[symmetric] main_loop_retry[OF lt run[unfolded Raised] ne lt' rec]] .
        then have on: "out = o2" "n = n2"
          by blast+
        have "rc \<le> n2" using ih by linarith
        then show ?thesis
          unfolding on using ih lt' by blast
      qed
    qed
  qed
qed

lemma run_monitoring_start_fails:
  "run_monitoring (Suc d) ci thr (Some c # starts) ces
     = (Raised (Exception c), starts, ces,
        [LogInfo (''Starting continuous monitoring every '' @ str_int ci @ '' seconds''),
         LogInfo (''EOD report time: '' @ thr)])"
  by simp

lemma main_loop_start_fails_retry:
  assumes "rc < max_retries" "rc' = rc + 1" "rc' < max_retries"
    and "main_loop rc' (Suc d) ci thr starts ces = (out, n, es)"
  shows "\<exists>es'. main_loop rc (Suc d) ci thr (Some c # starts) ces = (out, n, es')
           \<and> filter lifecycle es' = Sleep (60 * int rc') # filter lifecycle es"
proof -
  have ne: "Exception c \<noteq> KeyboardInterrupt" by simp
  show ?thesis
    using main_loop_retry[OF assms(1) run_monitoring_start_fails ne assms(3)[unfolded assms(2)]
        assms(4)[unfolded assms(2)]]
    unfolding assms(2) by simp
qed

lemma main_loop_start_fails_exit:
  assumes "rc < max_retries" "rc' = rc + 1" "\<not> rc' < max_retries"
  shows "\<exists>es'. main_loop rc (Suc d) ci thr (Some c # starts) ces = (Exited 1, rc', es')
           \<and> filter lifecycle es' = [Exit 1]"
proof -
  have ne: "Exception c \<noteq> KeyboardInterrupt" by simp
  show ?thesis
    using main_loop_exit[OF assms(1) run_monitoring_start_fails ne assms(3)[unfolded assms(2)]]
    unfolding assms(2) by simp
qed

lemma main_loop_five_failures:
  "\<exists>es. main_loop 0 (Suc d) ci thr (Some c1 # Some c2 # Some c3 # Some c4 # Some c5 # later) ces
           = (Exited 1, 5, es)
       \<and> filter lifecycle es = [Sleep 60, Sleep 120, Sleep 180, Sleep 240, Exit 1]"
proof -
  have p5: "(4::nat) < max_retries" "(5::nat) = 4 + 1" "\<not> (5::nat) < max_retries"
    and p4: "(3::nat) < max_retries" "(4::nat) = 3 + 1" "(4::nat) < max_retries"
    and p3: "(2::nat) < max_retries" "(3::nat) = 2 + 1" "(3::nat) < max_retries"
    and p2: "(1::nat) < max_retries" "(2::nat) = 1 + 1" "(2::nat) < max_retries"
    and p1: "(0::nat) < max_retries" "(1::nat) = 0 + 1" "(1::nat) < max_retries"
    by (simp_all add: max_retries_def)
  obtain e5 where e5: "main_loop 4 (Suc d) ci thr (Some c5 # later) ces = (Exited 1, 5, e5)"
      "filter lifecycle e5 = [Exit 1]"
    using main_loop_start_fails_exit[OF p5] by blast
  obtain e4 where e4: "main_loop 3 (Suc d) ci thr (Some c4 # Some c5 # later) ces = (Exited 1, 5, e4)"
      "filter lifecycle e4 = Sleep (60 * int 4) # filter lifecycle e5"
    using main_loop_start_fails_retry[OF p4 e5(1)] by blast
  obtain e3 where e3: "main_loop 2 (Suc d) ci thr (Some c3 # Some c4 # Some c5 # later) ces = (Exited 1, 5, e3)"
      "filter lifecycle e3 = Sleep (60 * int 3) # filter lifecycle e4"
    using main_loop_start_fails_retry[OF p3 e4(1)] by blast
  obtain e2 where e2: "main_loop 1 (Suc d) ci thr (Some c2 # Some c3 # Some c4 # Some c5 # later) ces = (Exited 1, 5, e2)"
      "filter lifecycle e2 = Sleep (60 * int 2) # filter lifecycle e3"
    using main_loop_start_fails_retry[OF p2 e3(1)] by blast
  obtain e1 where e1: "main_loop 0 (Suc d) ci thr (Some c1 # Some c2 # Some c3 # Some c4 # Some c5 # later) ces = (Exited 1, 5, e1)"
      "filter lifecycle e1 = Sleep (60 * int 1) # filter lifecycle e2"
    using main_loop_start_fails_retry[OF p1 e2(1)] by blast
  have "filter lifecycle e1 = [Sleep 60, Sleep 120, Sleep 180, Sleep 240, Exit 1]"
    unfolding e1(2) e2(2) e3(2) e4(2) e5(2) by simp
  then show ?thesis using e1(1) by blast
qed

lemma main_loop_inner_restarts:
  assumes "ci < 0" "length ces = m" "m < depth"
  shows "\<exists>es. main_loop 0 depth ci thr (replicate m None) ces = (Running, 0, es)
           \<and> filter lifecycle es = concat (replicate m [StartPolling, Sleep 60])"
proof -
  obtain es where es: "run_monitoring depth ci thr (replicate m None) ces = (Pending, [], [], es)"
      "filter lifecycle es = concat (replicate m [StartPolling, Sleep 60])"
    using run_monitoring_restarts[OF assms] by blast
  have "(0::nat) < max_retries" by (simp add: max_retries_def)
  from main_loop_pending[OF this es(1)] es(2) show ?thesis by blast
qed

text \<open>What holds of the retry budget.  It counts the exceptions that leave
  \<^verbatim>\<open>run_monitoring\<close>: on every run the final \<^verbatim>\<open>retry_count\<close> is at most 5, the process exits
  only with status 1 and only when the count has reached 5, and it does exit then.
  When \<^verbatim>\<open>start_polling\<close> raises five times in a row, \<^verbatim>\<open>main\<close> sleeps 60, 120, 180 and 240
  seconds between the attempts and then exits with status 1.  An exception raised
  inside the loop is not counted: with a negative check interval, where the sleep of
  every pass raises, \<^verbatim>\<open>run_monitoring\<close> starts the loop \<open>m\<close> times, each time after its own
  60 seconds, for every \<open>m\<close> the recursion depth allows, while \<^verbatim>\<open>retry_count\<close> stays 0 and
  the process keeps running.\<close>

lemma restart_budget:
  assumes "t \<noteq> []"
  shows "max_retries = 5
   \<and> (main (Some t) depth ci thr starts ces = (out, n, es) \<longrightarrow>
        n \<le> max_retries
        \<and> (\<forall>k. out = Exited k \<longrightarrow> k = 1 \<and> n = max_retries)
        \<and> (n = max_retries \<longrightarrow> out = Exited 1))
   \<and> (\<exists>es. main (Some t) (Suc d) ci thr
               (Some c1 # Some c2 # Some c3 # Some c4 # Some c5 # later) ces
             = (Exited 1, 5, es)
          \<and> filter lifecycle es = [Sleep 60, Sleep 120, Sleep 180, Sleep 240, Exit 1])
   \<and> (ci < 0 \<longrightarrow> length ces = m \<longrightarrow> m < depth \<longrightarrow>
        (\<exists>es. main (Some t) depth ci thr (replicate m None) ces = (Running, 0, es)
           \<and> filter lifecycle es = concat (replicate m [StartPolling, Sleep 60])))"
proof -
  have m: "main (Some t) dp i th st cs = main_loop 0 dp i th st cs" for dp i th st cs
    using assms by (simp add: main_def)
  have a: "main (Some t) depth ci thr starts ces = (out, n, es) \<longrightarrow>
        n \<le> max_retries
        \<and> (\<forall>k. out = Exited k \<longrightarrow> k = 1 \<and> n = max_retries)
        \<and> (n = max_retries \<longrightarrow> out = Exited 1)"
  proof
    assume "main (Some t) depth ci thr starts ces = (out, n, es)"
    then have r: "main_loop 0 depth ci thr starts ces = (out, n, es)"
      unfolding m .
    have z: "(0::nat) \<le> max_retries" by simp
    have pos: "(0::nat) < max_retries" by (simp add: max_retries_def)
    show "n \<le> max_retries
        \<and> (\<forall>k. out = Exited k \<longrightarrow> k = 1 \<and> n = max_retries)
        \<and> (n = max_retries \<longrightarrow> out = Exited 1)"
      using main_loop_budget[OF r z] pos by blast
  qed
  have b: "\<exists>es. main (Some t) (Suc d) ci thr
               (Some c1 # Some c2 # Some c3 # Some c4 # Some c5 # later) ces
             = (Exited 1, 5, es)
          \<and> filter lifecycle es = [Sleep 60, Sleep 120, Sleep 180, Sleep 240, Exit 1]"
    unfolding m by (rule main_loop_five_failures)
  have c: "ci < 0 \<longrightarrow> length ces = m \<longrightarrow> m < depth \<longrightarrow>
        (\<exists>es. main (Some t) depth ci thr (replicate m None) ces = (Running, 0, es)
           \<and> filter lifecycle es = concat (replicate m [StartPolling, Sleep 60]))"
    unfolding m using main_loop_inner_restarts by blast
  have r: "max_retries = 5" by (simp add: max_retries_def)
  show ?thesis
    using conjI[OF r conjI[OF a conjI[OF b c]]] .
qed

text \<open>\<^bold>\<open>C1\<close> fails on the code.  With \<^verbatim>\<open>CHECK_INTERVAL=-1\<close> the sleep that ends every pass of
  the loop raises \<^verbatim>\<open>ValueError\<close>.  The error never reaches the budget of \<^verbatim>\<open>main\<close>:
  \<^verbatim>\<open>run_monitoring\<close> catches it, sleeps 60 seconds and calls itself.  Over seven passes the
  loop is started seven times, six of them restarts after an error, more than the
  budget of 5, with 60 seconds before each; \<^verbatim>\<open>retry_count\<close> is still 0, no backoff of
  \<^verbatim>\<open>main\<close> has been slept and the process has not exited.\<close>

theorem six_restarts_without_exit:
  "\<exists>es. main (Some ''token'') 10 (- 1) ''16:00'' (replicate 7 None) (replicate 7 morning)
           = (Running, 0, es)
       \<and> filter lifecycle es
           = [StartPolling, Sleep 60, StartPolling, Sleep 60, StartPolling, Sleep 60,
              StartPolling, Sleep 60, StartPolling, Sleep 60, StartPolling, Sleep 60,
              StartPolling, Sleep 60]"
proof -
  have l: "length (replicate 7 morning) = 7" by simp
  have neg: "(- 1::int) < 0" and lt: "(7::nat) < 10" by simp_all
  have cc: "concat (replicate 7 [StartPolling, Sleep 60])
           = [StartPolling, Sleep 60, StartPolling, Sleep 60, StartPolling, Sleep 60,
              StartPolling, Sleep 60, StartPolling, Sleep 60, StartPolling, Sleep 60,
              StartPolling, Sleep 60]"
    by (simp add: numeral_eq_Suc)
  have m: "main (Some ''token'') 10 (- 1) ''16:00'' (replicate 7 None) (replicate 7 morning)
      = main_loop 0 10 (- 1) ''16:00'' (replicate 7 None) (replicate 7 morning)"
    by (simp add: main_def)
  show ?thesis
    using main_loop_inner_restarts[OF neg l lt, of "''16:00''"] unfolding m cc .
qed

lemma restart_budget_sample:
  "(\<exists>es. main (Some ''token'') (Suc 0) 600 ''16:00''
           [Some ''a'', Some ''b'', Some ''c'', Some ''d'', Some ''e''] []
           = (Exited 1, 5, es)
        \<and> filter lifecycle es = [Sleep 60, Sleep 120, Sleep 180, Sleep 240, Exit 1])
   \<and> (- 1 < (0::int) \<and> length [morning, morning] = 2 \<and> (2::nat) < 5
      \<and> (\<exists>es. main (Some ''token'') 5 (- 1) ''16:00'' (replicate 2 None) [morning, morning]
                 = (Running, 0, es)
             \<and> filter lifecycle es = [StartPolling, Sleep 60, StartPolling, Sleep 60]))"
proof -
  have t: "''token'' \<noteq> []" by simp
  have h: "- 1 < (0::int)" "length [morning, morning] = 2" "(2::nat) < 5"
    by simp_all
  have c: "concat (replicate 2 [StartPolling, Sleep 60]) = [StartPolling, Sleep 60, StartPolling, Sleep 60]"
    by (simp add: numeral_eq_Suc)
  note r1 = restart_budget [OF t, where d=0 and ci=600 and thr="''16:00''" and ces="[]"
      and ?c1.0="''a''" and ?c2.0="''b''" and ?c3.0="''c''" and ?c4.0="''d''" and ?c5.0="''e''"
      and later="[]", THEN conjunct2, THEN conjunct2, THEN conjunct1]
  note r2 = restart_budget [OF t, where ci="- 1" and ces="[morning, morning]" and m=2
      and depth=5 and thr="''16:00''", THEN conjunct2, THEN conjunct2, THEN conjunct2,
      THEN mp, OF h(1), THEN mp, OF h(2), THEN mp, OF h(3)]
  show ?thesis
    using conjI[OF r1 conjI[OF h(1) conjI[OF h(2) conjI[OF h(3) r2[unfolded c]]]]] .
qed

end
